theory Spec2Isabelle
  imports Main "HOL-Library.Sublist"
begin

section \<open>PostgreSQL backup CLI: the orchestrator and the interactive restore session\<close>

text \<open>
  The development embeds \<^verbatim>\<open>src/utils/backup.ts\<close> (class \<^verbatim>\<open>PostgresBackup\<close>) and the
  \<^verbatim>\<open>restore\<close> command of \<^verbatim>\<open>src/index.ts\<close>.

  Conventions.
  \<^item> A JavaScript string is a \<open>string\<close>; each \<open>char\<close> stands for one code unit in the
    range 0..255 (ASCII and Latin-1), which covers every literal of the program.
  \<^item> A thrown value is an \<open>error\<close>; a synchronous call that may throw returns
    \<open>error + 'a\<close> (\<open>Inl\<close> is the throw).
  \<^item> An awaited promise is a \<open>'a promise\<close>: fulfilled, rejected, or never settled.
  \<^item> Functions of the Node.js platform (\<^verbatim>\<open>URL\<close>, \<^verbatim>\<open>path\<close>, \<^verbatim>\<open>fs\<close>, \<^verbatim>\<open>child_process\<close>)
    and the state of the world they read are parameters of the model.
  \<^item> Everything the program does to the outside world is recorded, in order, as a list of
    \<open>effect\<close>s.
\<close>

subsection \<open>Values\<close>

datatype error = Error string

datatype 'a promise = Fulfilled 'a | Rejected error | Unsettled

text \<open>The only member of a parsed \<^verbatim>\<open>URL\<close> the program reads.\<close>

record URL =
  pathname :: string

text \<open>How a child process started by \<^verbatim>\<open>exec\<close> ends: exit status zero, or an error.\<close>

datatype exec_result = ExitOk | ExitFail error

text \<open>The fields \<^verbatim>\<open>size\<close> and \<^verbatim>\<open>mtime\<close> of \<^verbatim>\<open>fs.Stats\<close>.\<close>

record stats =
  stat_size :: nat
  stat_mtime :: nat

datatype effect =
    RlOpen
  | RlClose
  | Prompt string
  | ConsoleLog string
  | LogInfo string "(string \<times> string) list"
  | LogError string error
  | Exec string

text \<open>
  The platform and the world. \<open>new_URL\<close> is \<open>None\<close> where the constructor throws;
  \<open>exec\<close> is \<open>None\<close> for a command whose process never ends; \<open>mb_toFixed2 n\<close> is the
  text of \<^verbatim>\<open>(n / (1024 * 1024)).toFixed(2)\<close> and \<open>toLocaleString t\<close> the text of a
  modification time in the host's locale.
\<close>

record platform =
  new_URL :: "string \<rightharpoonup> URL"
  path_join :: "string \<Rightarrow> string \<Rightarrow> string"
  path_basename :: "string \<Rightarrow> string"
  mb_toFixed2 :: "nat \<Rightarrow> string"
  toLocaleString :: "nat \<Rightarrow> string"
  env_DATABASE_URL :: "string option"
  readdirSync :: "string \<Rightarrow> error + string list"
  statSync :: "string \<Rightarrow> error + stats"
  exec :: "string \<rightharpoonup> exec_result"

text \<open>The three private fields of \<^verbatim>\<open>PostgresBackup\<close>.\<close>

record PostgresBackup =
  backupDir :: string
  sqlDir :: string
  dbName :: string

subsection \<open>Strings\<close>

text \<open>\<^verbatim>\<open>s.endsWith(t)\<close>.\<close>

definition endsWith :: "string \<Rightarrow> string \<Rightarrow> bool" where
  "endsWith s t \<longleftrightarrow> length t \<le> length s \<and> drop (length s - length t) s = t"

text \<open>A template literal renders \<^verbatim>\<open>undefined\<close> as the word itself.\<close>

definition template_env :: "string option \<Rightarrow> string" where
  "template_env v = (case v of None \<Rightarrow> ''undefined'' | Some s \<Rightarrow> s)"

definition dquote :: string where
  "dquote = [CHR 0x22]"

definition squote :: string where
  "squote = [CHR 0x27]"

definition newline :: string where
  "newline = [CHR 0x0A]"

text \<open>
  \<^verbatim>\<open>s.toLowerCase()\<close> on code units below 256: the ASCII capitals and the Latin-1 capitals
  (all of 0xC0..0xDE but the multiplication sign) move up by 32.
\<close>

definition lower_char :: "char \<Rightarrow> char" where
  "lower_char c =
     (let n = (of_char c :: nat)
      in if (65 \<le> n \<and> n \<le> 90) \<or> (192 \<le> n \<and> n \<le> 222 \<and> n \<noteq> 215)
         then char_of (n + 32) else c)"

definition toLowerCase :: "string \<Rightarrow> string" where
  "toLowerCase s = map lower_char s"

text \<open>
  The decimal text of a non-negative integer, as a template literal renders a list length
  or an index (every such number is far below the \<open>1e21\<close> where JavaScript changes notation).
\<close>

definition digit_char :: "nat \<Rightarrow> char" where
  "digit_char d = char_of (48 + d)"

fun dec :: "nat \<Rightarrow> string" where
  "dec n = (if n < 10 then [digit_char n] else dec (n div 10) @ [digit_char (n mod 10)])"

declare dec.simps [simp del]

subsection \<open>Numbers: \<^verbatim>\<open>Number.parseInt\<close> and \<^verbatim>\<open>isValidSelection\<close>\<close>

text \<open>
  The numbers of the program are results of \<^verbatim>\<open>Number.parseInt\<close> and of subtracting one:
  an integer or \<^verbatim>\<open>NaN\<close> (\<open>None\<close>). They are only compared with a list length, so the
  rounding of integers beyond \<open>2^53\<close> does not change any comparison and is left out.
\<close>

type_synonym number = "int option"

text \<open>White space that \<^verbatim>\<open>parseInt\<close> skips, among the code units below 256.\<close>

definition is_white_space :: "char \<Rightarrow> bool" where
  "is_white_space c \<longleftrightarrow> (of_char c :: nat) \<in> {9, 10, 11, 12, 13, 32, 160}"

text \<open>The value of a digit in radix \<open>R\<close>, if it is one.\<close>

definition digit_value :: "nat \<Rightarrow> char \<Rightarrow> nat option" where
  "digit_value R c =
     (let n = (of_char c :: nat);
          v = (if 48 \<le> n \<and> n \<le> 57 then Some (n - 48)
               else if 97 \<le> n \<and> n \<le> 122 then Some (n - 87)
               else if 65 \<le> n \<and> n \<le> 90 then Some (n - 55)
               else None)
      in case v of None \<Rightarrow> None | Some d \<Rightarrow> if d < R then Some d else None)"

definition is_digit :: "nat \<Rightarrow> char \<Rightarrow> bool" where
  "is_digit R c \<longleftrightarrow> digit_value R c \<noteq> None"

definition digits_value :: "nat \<Rightarrow> string \<Rightarrow> nat" where
  "digits_value R Z = foldl (\<lambda>a c. a * R + (case digit_value R c of Some d \<Rightarrow> d | None \<Rightarrow> 0)) 0 Z"

text \<open>
  \<^verbatim>\<open>Number.parseInt(s)\<close> with no radix, step by step as ECMAScript defines it: skip leading
  white space, take a sign, take a \<^verbatim>\<open>0x\<close> or \<^verbatim>\<open>0X\<close> prefix (then the radix is 16, else
  10), read the longest run of digits; no digit gives \<^verbatim>\<open>NaN\<close>.
\<close>

definition parseInt :: "string \<Rightarrow> number" where
  "parseInt s =
     (let S = dropWhile is_white_space s;
          sign = (if S \<noteq> [] \<and> hd S = CHR ''-'' then - 1 else (1::int));
          S1 = (if S \<noteq> [] \<and> (hd S = CHR ''+'' \<or> hd S = CHR ''-'') then tl S else S);
          hex = (take 2 S1 = ''0x'' \<or> take 2 S1 = ''0X'');
          R = (if hex then 16 else 10);
          S2 = (if hex then drop 2 S1 else S1);
          Z = takeWhile (is_digit R) S2
      in if Z = [] then None else Some (sign * int (digits_value R Z)))"

text \<open>\<^verbatim>\<open>Number.parseInt(answer) - 1\<close>: \<^verbatim>\<open>NaN - 1\<close> is \<^verbatim>\<open>NaN\<close>.\<close>

definition minus_one :: "number \<Rightarrow> number" where
  "minus_one x = map_option (\<lambda>v. v - 1) x"

text \<open>
  \<^verbatim>\<open>return !Number.isNaN(selection) && selection >= 0 && selection < maxLength;\<close>
\<close>

definition isValidSelection :: "number \<Rightarrow> nat \<Rightarrow> bool" where
  "isValidSelection selection maxLength =
     (case selection of None \<Rightarrow> False | Some v \<Rightarrow> 0 \<le> v \<and> v < int maxLength)"

text \<open>\<^verbatim>\<open>xs[i]\<close> for a number \<open>i\<close>: \<^verbatim>\<open>undefined\<close> (\<open>None\<close>) outside the list.\<close>

definition index_at :: "'a list \<Rightarrow> number \<Rightarrow> 'a option" where
  "index_at xs i =
     (case i of None \<Rightarrow> None
      | Some v \<Rightarrow> if 0 \<le> v \<and> v < int (length xs) then Some (xs ! nat v) else None)"

subsection \<open>\<^verbatim>\<open>extractDbName\<close>\<close>

text \<open>
  \<^verbatim>\<open>try { const url = new URL(dbUrl); return url.pathname.slice(1) || "unknown-db"; }
  catch { return "unknown-db"; }\<close>
  The result is a sum so that "does not throw" is a statement about the value.
\<close>

definition extractDbName :: "platform \<Rightarrow> string \<Rightarrow> error + string" where
  "extractDbName pf dbUrl =
     (case new_URL pf dbUrl of
        Some url \<Rightarrow>
          (let name = drop 1 (pathname url)
           in if name = [] then Inr ''unknown-db'' else Inr name)
      | None \<Rightarrow> Inr ''unknown-db'')"

subsection \<open>\<^verbatim>\<open>createDirectories\<close> and the constructor\<close>

text \<open>
  The two calls of \<^verbatim>\<open>fs\<close> that change or probe the directory tree, over any
  representation \<open>'fs\<close> of the file system's state.
\<close>

record 'fs fs_api =
  existsSync :: "'fs \<Rightarrow> string \<Rightarrow> bool"
  mkdirSync_recursive :: "'fs \<Rightarrow> string \<Rightarrow> error + 'fs"

text \<open>
  \<^verbatim>\<open>for (const dir of [this.backupDir, this.sqlDir]) {
    if (!fs.existsSync(dir)) { fs.mkdirSync(dir, { recursive: true }); } }\<close>
\<close>

fun createDirectories_loop :: "'fs fs_api \<Rightarrow> string list \<Rightarrow> 'fs \<Rightarrow> error + 'fs" where
  "createDirectories_loop api [] fs = Inr fs"
| "createDirectories_loop api (dir # dirs) fs =
     (if \<not> existsSync api fs dir
      then (case mkdirSync_recursive api fs dir of
              Inl e \<Rightarrow> Inl e
            | Inr fs' \<Rightarrow> createDirectories_loop api dirs fs')
      else createDirectories_loop api dirs fs)"

definition createDirectories :: "'fs fs_api \<Rightarrow> string \<Rightarrow> string \<Rightarrow> 'fs \<Rightarrow> error + 'fs" where
  "createDirectories api this_backupDir this_sqlDir fs =
     createDirectories_loop api [this_backupDir, this_sqlDir] fs"

text \<open>\<^verbatim>\<open>process.env.DATABASE_URL || ""\<close>.\<close>

definition or_empty :: "string option \<Rightarrow> string" where
  "or_empty v = (case v of None \<Rightarrow> [] | Some s \<Rightarrow> s)"

text \<open>
  \<^verbatim>\<open>constructor(backupDir)\<close>: sets the two directories, creates them, derives the
  database name. \<^verbatim>\<open>extractDbName\<close> returns in every case (\<open>Inl\<close> is carried along only
  to keep the shape of the call).
\<close>

definition new_PostgresBackup ::
  "platform \<Rightarrow> 'fs fs_api \<Rightarrow> 'fs \<Rightarrow> string \<Rightarrow> error + (PostgresBackup \<times> 'fs)" where
  "new_PostgresBackup pf api fs dir =
     (let this_backupDir = dir;
          this_sqlDir = path_join pf dir ''sql''
      in case createDirectories api this_backupDir this_sqlDir fs of
           Inl e \<Rightarrow> Inl e
         | Inr fs' \<Rightarrow>
             (case extractDbName pf (or_empty (env_DATABASE_URL pf)) of
                Inl e \<Rightarrow> Inl e
              | Inr name \<Rightarrow>
                  Inr (\<lparr>backupDir = this_backupDir, sqlDir = this_sqlDir, dbName = name\<rparr>, fs')))"

subsection \<open>\<^verbatim>\<open>createBackup\<close>\<close>

text \<open>
  \<^verbatim>\<open>new Date().toISOString().replace(/[:.]/g, "-")\<close>; the argument is the ISO text of the
  clock's instant.
\<close>

definition timestamp :: "string \<Rightarrow> string" where
  "timestamp now = map (\<lambda>c. if c = CHR '':'' \<or> c = CHR ''.'' then CHR ''-'' else c) now"

definition sqlFilename :: "PostgresBackup \<Rightarrow> string \<Rightarrow> string" where
  "sqlFilename this ts = dbName this @ ''-backup-'' @ ts @ ''.sql''"

definition backupFilename :: "PostgresBackup \<Rightarrow> string \<Rightarrow> string" where
  "backupFilename this ts = dbName this @ ''-backup-'' @ ts @ ''.backup''"

definition sqlPath :: "platform \<Rightarrow> PostgresBackup \<Rightarrow> string \<Rightarrow> string" where
  "sqlPath pf this ts = path_join pf (sqlDir this) (sqlFilename this ts)"

definition backupPath :: "platform \<Rightarrow> PostgresBackup \<Rightarrow> string \<Rightarrow> string" where
  "backupPath pf this ts = path_join pf (backupDir this) (backupFilename this ts)"

text \<open>The two command lines handed to \<^verbatim>\<open>execAsync\<close>.\<close>

definition pg_dump_sql_command :: "platform \<Rightarrow> string \<Rightarrow> string" where
  "pg_dump_sql_command pf target =
     ''pg_dump '' @ dquote @ template_env (env_DATABASE_URL pf) @ dquote @ '' -f '' @ target"

definition pg_dump_custom_command :: "platform \<Rightarrow> string \<Rightarrow> string" where
  "pg_dump_custom_command pf target =
     ''pg_dump -Fc '' @ dquote @ template_env (env_DATABASE_URL pf) @ dquote @ '' -f '' @ target"

text \<open>The value \<^verbatim>\<open>{ sql: sqlPath, backup: backupPath }\<close>.\<close>

record backup_paths =
  sql :: string
  backup :: string

text \<open>
  The two elements of the array given to \<^verbatim>\<open>Promise.all\<close>, and the moment one of the two
  child processes ends.
\<close>

datatype dump = SqlDump | CustomDump

type_synonym completion = "dump \<times> exec_result"

text \<open>
  \<^verbatim>\<open>createBackup\<close> while it runs: what it has done so far, which elements of
  \<^verbatim>\<open>Promise.all\<close> are fulfilled, and the state of the promise it returned.
\<close>

record createBackup_state =
  cb_effects :: "effect list"
  sql_done :: bool
  custom_done :: bool
  cb_result :: "backup_paths promise"

text \<open>
  Up to the \<^verbatim>\<open>await\<close>: both calls of \<^verbatim>\<open>execAsync\<close> are evaluated, one after the other,
  to build the array, so both processes are started before the function suspends.
\<close>

definition createBackup_start :: "platform \<Rightarrow> PostgresBackup \<Rightarrow> string \<Rightarrow> createBackup_state" where
  "createBackup_start pf this now =
     (let ts = timestamp now
      in \<lparr>cb_effects = [Exec (pg_dump_sql_command pf (sqlPath pf this ts)),
                        Exec (pg_dump_custom_command pf (backupPath pf this ts))],
          sql_done = False, custom_done = False, cb_result = Unsettled\<rparr>)"

text \<open>
  One process ends. \<^verbatim>\<open>Promise.all\<close> rejects at the first rejection of an element and
  fulfils when every element is fulfilled; the function resumes in the \<^verbatim>\<open>catch\<close> block
  or after the \<^verbatim>\<open>await\<close> accordingly. Once the function has finished, what the other
  process does has no effect on it.
\<close>

definition createBackup_step ::
  "platform \<Rightarrow> PostgresBackup \<Rightarrow> string \<Rightarrow> createBackup_state \<Rightarrow> completion \<Rightarrow> createBackup_state" where
  "createBackup_step pf this now st ev =
     (let ts = timestamp now
      in if cb_result st \<noteq> Unsettled then st
         else (case snd ev of
                 ExitFail e \<Rightarrow>
                   st\<lparr>cb_effects := cb_effects st @
                         [LogError (''Backup failed for database '' @ squote @ dbName this @ squote @ '':'') e],
                      cb_result := Rejected e\<rparr>
               | ExitOk \<Rightarrow>
                   (let st' = (case fst ev of
                                 SqlDump \<Rightarrow> st\<lparr>sql_done := True\<rparr>
                               | CustomDump \<Rightarrow> st\<lparr>custom_done := True\<rparr>)
                    in if sql_done st' \<and> custom_done st'
                       then st'\<lparr>cb_effects := cb_effects st' @
                                 [LogInfo (''Backups created successfully for database '' @ squote @
                                            dbName this @ squote)
                                    [(''database'', dbName this),
                                     (''sqlBackup'', sqlFilename this ts),
                                     (''customBackup'', backupFilename this ts),
                                     (''timestamp'', ts)]],
                               cb_result := Fulfilled \<lparr>sql = sqlPath pf this ts,
                                                       backup = backupPath pf this ts\<rparr>\<rparr>
                       else st')))"

text \<open>
  \<^verbatim>\<open>createBackup()\<close> with the clock's ISO text \<open>now\<close>, after the processes have ended in the
  order and with the results of \<open>evs\<close> (a process missing from \<open>evs\<close> is still running).
\<close>

definition createBackup ::
  "platform \<Rightarrow> PostgresBackup \<Rightarrow> string \<Rightarrow> completion list \<Rightarrow> createBackup_state" where
  "createBackup pf this now evs =
     foldl (createBackup_step pf this now) (createBackup_start pf this now) evs"

text \<open>The commands an effect list has started, and the questions it has asked.\<close>

fun executed :: "effect list \<Rightarrow> string list" where
  "executed [] = []"
| "executed (Exec c # es) = c # executed es"
| "executed (_ # es) = executed es"

fun prompts :: "effect list \<Rightarrow> string list" where
  "prompts [] = []"
| "prompts (Prompt q # es) = q # prompts es"
| "prompts (_ # es) = prompts es"

subsection \<open>\<^verbatim>\<open>restoreBackup\<close> and \<^verbatim>\<open>listBackups\<close>\<close>

definition pg_restore_command :: "platform \<Rightarrow> string \<Rightarrow> string" where
  "pg_restore_command pf path =
     ''pg_restore -d '' @ dquote @ template_env (env_DATABASE_URL pf) @ dquote @
     '' --clean --if-exists '' @ path"

definition psql_command :: "platform \<Rightarrow> string \<Rightarrow> string" where
  "psql_command pf path =
     ''psql '' @ dquote @ template_env (env_DATABASE_URL pf) @ dquote @ '' -f '' @ path"

definition restoreBackup :: "platform \<Rightarrow> string \<Rightarrow> effect list \<times> unit promise" where
  "restoreBackup pf path =
     (let command = (if endsWith path ''.backup''
                     then pg_restore_command pf path
                     else psql_command pf path)
      in case exec pf command of
           None \<Rightarrow> ([Exec command], Unsettled)
         | Some ExitOk \<Rightarrow>
             ([Exec command, LogInfo (''Restore completed successfully from: '' @ path) []],
              Fulfilled ())
         | Some (ExitFail e) \<Rightarrow>
             ([Exec command, LogError ''Restore failed:'' e], Rejected e))"

definition listBackups :: "platform \<Rightarrow> PostgresBackup \<Rightarrow> error + string list" where
  "listBackups pf this =
     (case readdirSync pf (backupDir this) of
        Inl e \<Rightarrow> Inl e
      | Inr files \<Rightarrow>
          Inr (map (\<lambda>file. path_join pf (backupDir this) file)
                 (filter (\<lambda>file. endsWith file ''.backup'') files)))"

subsection \<open>The \<^verbatim>\<open>restore\<close> command\<close>

text \<open>
  \<^verbatim>\<open>displayBackups\<close>: two header lines, then three lines for each backup; \<^verbatim>\<open>statSync\<close>
  may throw, after the lines of the backups before it.
\<close>

fun displayBackups_forEach :: "platform \<Rightarrow> nat \<Rightarrow> string list \<Rightarrow> effect list \<times> (error + unit)" where
  "displayBackups_forEach pf index [] = ([], Inr ())"
| "displayBackups_forEach pf index (file # rest) =
     (case statSync pf file of
        Inl e \<Rightarrow> ([], Inl e)
      | Inr st \<Rightarrow>
          (let filename = path_basename pf file;
               size_mb = mb_toFixed2 pf (stat_size st);
               date = toLocaleString pf (stat_mtime st);
               shown = [ConsoleLog (newline @ dec (index + 1) @ '') '' @ filename),
                        ConsoleLog (''   Size: '' @ size_mb @ '' MB''),
                        ConsoleLog (''   Date: '' @ date)]
           in case displayBackups_forEach pf (index + 1) rest of
                (out, r) \<Rightarrow> (shown @ out, r)))"

definition displayBackups :: "platform \<Rightarrow> string list \<Rightarrow> effect list \<times> (error + unit)" where
  "displayBackups pf backups =
     (case displayBackups_forEach pf 0 backups of
        (out, r) \<Rightarrow>
          ([ConsoleLog (newline @ ''Available backups (custom format):''),
            ConsoleLog ''=================================''] @ out, r))"

definition select_prompt :: "nat \<Rightarrow> string" where
  "select_prompt n =
     newline @ ''Enter the number of the backup to restore (1-'' @ dec n @ ''), or '' @
     squote @ ''q'' @ squote @ '' to quit: ''"

definition confirm_prompt :: "platform \<Rightarrow> string \<Rightarrow> string" where
  "confirm_prompt pf selectedBackup =
     newline @ ''Are you sure you want to restore from '' @ path_basename pf selectedBackup @
     ''? (y/N): ''"

text \<open>
  From the second \<^verbatim>\<open>question\<close> on: \<open>sofar\<close> is what has happened so far, \<open>answers\<close> what
  the operator will still type (a question with no answer left never resolves).
\<close>

definition restore_confirm ::
  "platform \<Rightarrow> effect list \<Rightarrow> string \<Rightarrow> string list \<Rightarrow> effect list \<times> unit promise" where
  "restore_confirm pf sofar selectedBackup answers =
     (let asked = sofar @ [Prompt (confirm_prompt pf selectedBackup)]
      in case answers of
           [] \<Rightarrow> (asked, Unsettled)
         | confirmation # _ \<Rightarrow>
             if toLowerCase confirmation \<noteq> ''y''
             then (asked @ [ConsoleLog ''Restore cancelled''], Fulfilled ())
             else (case restoreBackup pf selectedBackup of
                     (es, Fulfilled _) \<Rightarrow>
                       (asked @ es @ [ConsoleLog ''Restore completed successfully''], Fulfilled ())
                   | (es, Rejected e) \<Rightarrow> (asked @ es, Rejected e)
                   | (es, Unsettled) \<Rightarrow> (asked @ es, Unsettled)))"

text \<open>
  The \<^verbatim>\<open>try\<close> block of the action. \<^verbatim>\<open>backups[selection]\<close> is a path whenever
  \<^verbatim>\<open>isValidSelection\<close> holds; were it \<^verbatim>\<open>undefined\<close>, \<^verbatim>\<open>path.basename\<close> would throw.
\<close>

definition restore_try :: "platform \<Rightarrow> PostgresBackup \<Rightarrow> string list \<Rightarrow> effect list \<times> unit promise" where
  "restore_try pf this answers =
     (case listBackups pf this of
        Inl e \<Rightarrow> ([], Rejected e)
      | Inr backups \<Rightarrow>
          if length backups = 0
          then ([ConsoleLog ''No backup files available''], Fulfilled ())
          else (case displayBackups pf backups of
                  (out, Inl e) \<Rightarrow> (out, Rejected e)
                | (out, Inr _) \<Rightarrow>
                    (let asked = out @ [Prompt (select_prompt (length backups))]
                     in case answers of
                          [] \<Rightarrow> (asked, Unsettled)
                        | answer # rest \<Rightarrow>
                            if toLowerCase answer = ''q''
                            then (asked @ [ConsoleLog ''Restore cancelled''], Fulfilled ())
                            else (let selection = minus_one (parseInt answer)
                                  in if \<not> isValidSelection selection (length backups)
                                     then (asked @ [ConsoleLog ''Invalid selection''], Fulfilled ())
                                     else (case index_at backups selection of
                                             None \<Rightarrow> (asked, Rejected (Error ''TypeError''))
                                           | Some selectedBackup \<Rightarrow>
                                               restore_confirm pf asked selectedBackup rest)))))"

text \<open>
  The whole action: \<^verbatim>\<open>createReadline()\<close>, the \<^verbatim>\<open>try\<close> block, \<^verbatim>\<open>catch\<close> (log the error)
  and \<^verbatim>\<open>finally\<close> (\<^verbatim>\<open>rl.close()\<close>). Where the \<^verbatim>\<open>try\<close> block waits for ever, neither
  \<^verbatim>\<open>catch\<close> nor \<^verbatim>\<open>finally\<close> runs.
\<close>

definition restore_action :: "platform \<Rightarrow> PostgresBackup \<Rightarrow> string list \<Rightarrow> effect list \<times> unit promise" where
  "restore_action pf this answers =
     (case restore_try pf this answers of
        (es, Fulfilled _) \<Rightarrow> (RlOpen # es @ [RlClose], Fulfilled ())
      | (es, Rejected e) \<Rightarrow> (RlOpen # es @ [LogError ''Restore failed:'' e, RlClose], Fulfilled ())
      | (es, Unsettled) \<Rightarrow> (RlOpen # es, Unsettled))"

subsection \<open>A sample world\<close>

text \<open>
  Concrete values at which the theorems below are instantiated: a platform whose
  \<^verbatim>\<open>path.join\<close> and \<^verbatim>\<open>path.basename\<close> act as Node's do on normalised absolute POSIX
  paths, whose \<^verbatim>\<open>URL\<close> parses three connection strings as Node does, a backup
  directory \<^verbatim>\<open>/var/backups\<close> holding two custom-format backups and one other file, and a
  directory \<^verbatim>\<open>/var/empty\<close> holding no backup.
\<close>

definition sample_join :: "string \<Rightarrow> string \<Rightarrow> string" where
  "sample_join dir file = dir @ ''/'' @ file"

definition sample_basename :: "string \<Rightarrow> string" where
  "sample_basename p = rev (takeWhile (\<lambda>c. c \<noteq> CHR ''/'') (rev p))"

definition sample_readdir :: "string \<Rightarrow> error + string list" where
  "sample_readdir dir =
     (if dir = ''/var/backups'' then Inr [''a.backup'', ''notes.txt'', ''b.backup'']
      else if dir = ''/var/empty'' then Inr [''notes.txt'']
      else Inl (Error ''ENOENT''))"

definition sample_platform :: platform where
  "sample_platform =
     \<lparr>new_URL = [''postgres://user@host/shop'' \<mapsto> \<lparr>pathname = ''/shop''\<rparr>,
                 ''postgres://host/'' \<mapsto> \<lparr>pathname = ''/''\<rparr>,
                 ''postgres://host'' \<mapsto> \<lparr>pathname = []\<rparr>],
      path_join = sample_join,
      path_basename = sample_basename,
      mb_toFixed2 = (\<lambda>n. ''0.00''),
      toLocaleString = (\<lambda>t. ''1/2/2024, 3:04:05 AM''),
      env_DATABASE_URL = Some ''postgres://user@host/shop'',
      readdirSync = sample_readdir,
      statSync = (\<lambda>p. Inr \<lparr>stat_size = 0, stat_mtime = 0\<rparr>),
      exec = (\<lambda>c. Some ExitOk)\<rparr>"

definition sample_backup :: PostgresBackup where
  "sample_backup = \<lparr>backupDir = ''/var/backups'', sqlDir = ''/var/backups/sql'', dbName = ''shop''\<rparr>"

definition sample_now :: string where
  "sample_now = ''2024-01-02T03:04:05.678Z''"

text \<open>
  Two file systems as lists of the paths that exist: on the first every \<^verbatim>\<open>mkdirSync\<close>
  succeeds, on the second (read-only) every one throws.
\<close>

definition sample_fs :: "string list fs_api" where
  "sample_fs = \<lparr>existsSync = (\<lambda>fs p. p \<in> set fs),
                mkdirSync_recursive = (\<lambda>fs p. Inr (p # fs))\<rparr>"

definition readonly_fs :: "string list fs_api" where
  "readonly_fs = \<lparr>existsSync = (\<lambda>fs p. p \<in> set fs),
                  mkdirSync_recursive = (\<lambda>fs p. Inl (Error ''EROFS''))\<rparr>"

section \<open>Properties\<close>

subsection \<open>Helper lemmas\<close>

lemma endsWith_iff: "endsWith s t \<longleftrightarrow> (\<exists>stem. s = stem @ t)"
proof
  assume "endsWith s t"
  then have "s = take (length s - length t) s @ t"
    by (metis append_take_drop_id endsWith_def)
  then show "\<exists>stem. s = stem @ t" ..
next
  assume "\<exists>stem. s = stem @ t"
  then show "endsWith s t" by (auto simp: endsWith_def)
qed

lemma executed_restoreBackup:
  "executed (fst (restoreBackup pf path)) =
     [if endsWith path ''.backup'' then pg_restore_command pf path else psql_command pf path]"
  by (simp add: restoreBackup_def Let_def split: option.splits exec_result.splits)

lemma sample_platform_fields:
  "path_join sample_platform = sample_join"
  "path_basename sample_platform = sample_basename"
  "env_DATABASE_URL sample_platform = Some ''postgres://user@host/shop''"
  "readdirSync sample_platform = sample_readdir"
  "statSync sample_platform p = Inr \<lparr>stat_size = 0, stat_mtime = 0\<rparr>"
  "exec sample_platform c = Some ExitOk"
  "mb_toFixed2 sample_platform n = ''0.00''"
  "toLocaleString sample_platform t = ''1/2/2024, 3:04:05 AM''"
  by (simp_all add: sample_platform_def)

lemma sample_backup_fields:
  "backupDir sample_backup = ''/var/backups''"
  "sqlDir sample_backup = ''/var/backups/sql''"
  "dbName sample_backup = ''shop''"
  by (simp_all add: sample_backup_def)

lemma timestamp_sample_now: "timestamp sample_now = ''2024-01-02T03-04-05-678Z''"
  by (simp add: timestamp_def sample_now_def)

text \<open>Facts about \<^verbatim>\<open>createBackup\<close> as the two processes end one by one.\<close>

lemma createBackup_step_settled:
  "cb_result st \<noteq> Unsettled \<Longrightarrow> createBackup_step pf this now st ev = st"
  by (simp add: createBackup_step_def)

lemma foldl_step_settled:
  "cb_result st \<noteq> Unsettled \<Longrightarrow> foldl (createBackup_step pf this now) st evs = st"
  by (induction evs) (simp_all add: createBackup_step_settled)

lemma createBackup_snoc:
  "createBackup pf this now (evs @ [ev]) =
     createBackup_step pf this now (createBackup pf this now evs) ev"
  by (simp add: createBackup_def)

lemma createBackup_Nil: "createBackup pf this now [] = createBackup_start pf this now"
  by (simp add: createBackup_def)

lemma step_fail:
  "cb_result st = Unsettled \<Longrightarrow>
   createBackup_step pf this now st (d, ExitFail e) =
     st\<lparr>cb_effects := cb_effects st @
           [LogError (''Backup failed for database '' @ squote @ dbName this @ squote @ '':'') e],
        cb_result := Rejected e\<rparr>"
  by (simp add: createBackup_step_def)

lemma step_ok_fields:
  assumes "cb_result st = Unsettled"
  shows "sql_done (createBackup_step pf this now st (d, ExitOk)) = (d = SqlDump \<or> sql_done st)"
    and "custom_done (createBackup_step pf this now st (d, ExitOk)) = (d = CustomDump \<or> custom_done st)"
    and "\<not> ((d = SqlDump \<or> sql_done st) \<and> (d = CustomDump \<or> custom_done st)) \<Longrightarrow>
         cb_result (createBackup_step pf this now st (d, ExitOk)) = Unsettled
         \<and> cb_effects (createBackup_step pf this now st (d, ExitOk)) = cb_effects st"
    and "(d = SqlDump \<or> sql_done st) \<and> (d = CustomDump \<or> custom_done st) \<Longrightarrow>
         cb_result (createBackup_step pf this now st (d, ExitOk)) =
           Fulfilled \<lparr>sql = sqlPath pf this (timestamp now), backup = backupPath pf this (timestamp now)\<rparr>"
  using assms by (cases d; simp add: createBackup_step_def Let_def)+


lemma dump_cases: "d = SqlDump \<or> d = CustomDump"
  by (cases d) simp_all

lemma createBackup_ok_prefix:
  "\<forall>ev \<in> set evs. snd ev = ExitOk \<Longrightarrow>
   \<not> (SqlDump \<in> fst ` set evs \<and> CustomDump \<in> fst ` set evs) \<Longrightarrow>
   cb_result (createBackup pf this now evs) = Unsettled
   \<and> cb_effects (createBackup pf this now evs) = cb_effects (createBackup_start pf this now)
   \<and> sql_done (createBackup pf this now evs) = (SqlDump \<in> fst ` set evs)
   \<and> custom_done (createBackup pf this now evs) = (CustomDump \<in> fst ` set evs)"
proof (induction evs rule: rev_induct)
  case Nil
  show ?case by (simp add: createBackup_Nil createBackup_start_def Let_def)
next
  case (snoc ev evs)
  let ?st = "createBackup pf this now evs"
  obtain d r where ev: "ev = (d, r)" by (cases ev)
  from snoc.prems(1) ev have r: "r = ExitOk" by simp
  from snoc.prems(1) have ok: "\<forall>ev \<in> set evs. snd ev = ExitOk" by simp
  from snoc.prems(2) have nb0: "\<not> (SqlDump \<in> fst ` set evs \<and> CustomDump \<in> fst ` set evs)"
    by auto
  note IH = snoc.IH [OF ok nb0]
  from IH have u: "cb_result ?st = Unsettled" by simp
  from snoc.prems(2) ev
  have nb: "\<not> ((d = SqlDump \<or> SqlDump \<in> fst ` set evs) \<and> (d = CustomDump \<or> CustomDump \<in> fst ` set evs))"
    by auto
  then have nb': "\<not> ((d = SqlDump \<or> sql_done ?st) \<and> (d = CustomDump \<or> custom_done ?st))"
    using IH by simp
  have s1: "SqlDump \<in> fst ` set (evs @ [ev]) \<longleftrightarrow> d = SqlDump \<or> SqlDump \<in> fst ` set evs"
    using ev by auto
  have s2: "CustomDump \<in> fst ` set (evs @ [ev]) \<longleftrightarrow> d = CustomDump \<or> CustomDump \<in> fst ` set evs"
    using ev by auto
  show ?case
    unfolding createBackup_snoc ev r s1 [unfolded ev r] s2 [unfolded ev r]
    using step_ok_fields(1,2) [OF u, of pf this now d] step_ok_fields(3) [OF u nb', of pf this now] IH
    by simp
qed

lemma createBackup_first_failure:
  assumes ok: "\<forall>ev \<in> set pre. snd ev = ExitOk" and dist: "d \<notin> fst ` set pre"
  shows "cb_result (createBackup pf this now (pre @ (d, ExitFail e) # post)) = Rejected e
    \<and> cb_effects (createBackup pf this now (pre @ (d, ExitFail e) # post)) =
        cb_effects (createBackup_start pf this now) @
        [LogError (''Backup failed for database '' @ squote @ dbName this @ squote @ '':'') e]"
proof -
  have "\<not> (SqlDump \<in> fst ` set pre \<and> CustomDump \<in> fst ` set pre)"
    using dist dump_cases [of d] by auto
  from createBackup_ok_prefix [OF ok this, of pf this now]
  have u: "cb_result (createBackup pf this now pre) = Unsettled"
    and f: "cb_effects (createBackup pf this now pre) = cb_effects (createBackup_start pf this now)"
    by simp_all
  let ?st = "createBackup_step pf this now (createBackup pf this now pre) (d, ExitFail e)"
  have s: "cb_result ?st = Rejected e"
    "cb_effects ?st = cb_effects (createBackup_start pf this now) @
        [LogError (''Backup failed for database '' @ squote @ dbName this @ squote @ '':'') e]"
    using f by (simp_all add: step_fail [OF u])
  have "createBackup pf this now (pre @ (d, ExitFail e) # post) =
      foldl (createBackup_step pf this now) ?st post"
    by (simp add: createBackup_def)
  also have "\<dots> = ?st"
    using s(1) by (simp add: foldl_step_settled)
  finally show ?thesis using s by simp
qed

lemma first_failure_split:
  assumes "(d, ExitFail e) \<in> set evs"
  shows "\<exists>pre d' e' post. evs = pre @ (d', ExitFail e') # post \<and> (\<forall>x \<in> set pre. snd x = ExitOk)"
  using assms
proof (induction evs)
  case Nil
  then show ?case by simp
next
  case (Cons ev evs)
  obtain d0 r0 where ev: "ev = (d0, r0)" by (cases ev)
  show ?case
  proof (cases r0)
    case ExitOk
    with Cons.prems ev have "(d, ExitFail e) \<in> set evs" by auto
    from Cons.IH [OF this] obtain pre d' e' post
      where "evs = pre @ (d', ExitFail e') # post" "\<forall>x \<in> set pre. snd x = ExitOk" by blast
    then have "ev # evs = (ev # pre) @ (d', ExitFail e') # post \<and> (\<forall>x \<in> set (ev # pre). snd x = ExitOk)"
      using ev ExitOk by simp
    then show ?thesis by blast
  next
    case (ExitFail e0)
    then have "ev # evs = [] @ (d0, ExitFail e0) # evs \<and> (\<forall>x \<in> set []. snd x = ExitOk)"
      using ev by simp
    then show ?thesis by blast
  qed
qed

lemma executed_append: "executed (xs @ ys) = executed xs @ executed ys"
  by (induction xs rule: executed.induct) simp_all

lemma executed_step:
  "executed (cb_effects (createBackup_step pf this now st ev)) = executed (cb_effects st)"
proof (cases "cb_result st = Unsettled")
  case False
  then show ?thesis by (simp add: createBackup_step_settled)
next
  case True
  obtain d r where ev: "ev = (d, r)" by (cases ev)
  show ?thesis
  proof (cases r)
    case ExitOk
    show ?thesis unfolding ev ExitOk using True
      by (cases d; simp add: createBackup_step_def Let_def executed_append)
  next
    case (ExitFail e)
    show ?thesis unfolding ev ExitFail
      by (simp add: step_fail [OF True] executed_append)
  qed
qed

lemma executed_createBackup:
  "executed (cb_effects (createBackup pf this now evs)) =
     [pg_dump_sql_command pf (sqlPath pf this (timestamp now)),
      pg_dump_custom_command pf (backupPath pf this (timestamp now))]"
proof (induction evs rule: rev_induct)
  case Nil
  show ?case by (simp add: createBackup_Nil createBackup_start_def Let_def)
next
  case (snoc ev evs)
  then show ?case by (simp add: createBackup_snoc executed_step)
qed

lemma createBackup_done_flags:
  "(sql_done (createBackup pf this now evs) \<longrightarrow> (SqlDump, ExitOk) \<in> set evs)
   \<and> (custom_done (createBackup pf this now evs) \<longrightarrow> (CustomDump, ExitOk) \<in> set evs)
   \<and> (\<forall>p. cb_result (createBackup pf this now evs) = Fulfilled p \<longrightarrow>
         sql_done (createBackup pf this now evs) \<and> custom_done (createBackup pf this now evs)
         \<and> p = \<lparr>sql = sqlPath pf this (timestamp now), backup = backupPath pf this (timestamp now)\<rparr>)"
proof (induction evs rule: rev_induct)
  case Nil
  show ?case by (simp add: createBackup_Nil createBackup_start_def Let_def)
next
  case (snoc ev evs)
  let ?st = "createBackup pf this now evs"
  show ?case
  proof (cases "cb_result ?st = Unsettled")
    case False
    then have "createBackup pf this now (evs @ [ev]) = ?st"
      by (simp add: createBackup_snoc createBackup_step_settled)
    with snoc.IH show ?thesis by auto
  next
    case True
    obtain d r where ev: "ev = (d, r)" by (cases ev)
    show ?thesis
    proof (cases r)
      case (ExitFail e)
      have "createBackup pf this now (evs @ [ev]) =
          ?st\<lparr>cb_effects := cb_effects ?st @
           [LogError (''Backup failed for database '' @ squote @ dbName this @ squote @ '':'') e],
        cb_result := Rejected e\<rparr>"
        unfolding createBackup_snoc ev ExitFail by (rule step_fail [OF True])
      with snoc.IH show ?thesis by auto
    next
      case ExitOk
      note f = step_ok_fields [OF True, where pf = pf and this = this and now = now and d = d]
      show ?thesis
      proof (cases "(d = SqlDump \<or> sql_done ?st) \<and> (d = CustomDump \<or> custom_done ?st)")
        case both: True
        show ?thesis
          unfolding createBackup_snoc ev ExitOk
          using f(1,2) f(4) [OF both] both snoc.IH by auto
      next
        case notboth: False
        show ?thesis
          unfolding createBackup_snoc ev ExitOk
          using f(1,2) f(3) [OF notboth] notboth snoc.IH by auto
      qed
    qed
  qed
qed

lemma createBackup_all_ok:
  "\<forall>ev \<in> set evs. snd ev = ExitOk \<Longrightarrow> SqlDump \<in> fst ` set evs \<Longrightarrow> CustomDump \<in> fst ` set evs \<Longrightarrow>
   cb_result (createBackup pf this now evs) =
     Fulfilled \<lparr>sql = sqlPath pf this (timestamp now), backup = backupPath pf this (timestamp now)\<rparr>"
proof (induction evs rule: rev_induct)
  case Nil
  then show ?case by simp
next
  case (snoc ev evs)
  let ?st = "createBackup pf this now evs"
  from snoc.prems(1) have ok: "\<forall>ev \<in> set evs. snd ev = ExitOk" by simp
  obtain d where ev: "ev = (d, ExitOk)" using snoc.prems(1) by (cases ev) simp
  show ?case
  proof (cases "SqlDump \<in> fst ` set evs \<and> CustomDump \<in> fst ` set evs")
    case True
    with snoc.IH ok have "cb_result ?st = Fulfilled \<lparr>sql = sqlPath pf this (timestamp now), backup = backupPath pf this (timestamp now)\<rparr>"
      by simp
    then show ?thesis by (simp add: createBackup_snoc createBackup_step_settled)
  next
    case False
    note p = createBackup_ok_prefix [OF ok False, of pf this now]
    from p have u: "cb_result ?st = Unsettled" by simp
    have both: "(d = SqlDump \<or> sql_done ?st) \<and> (d = CustomDump \<or> custom_done ?st)"
      using p snoc.prems(2,3) ev by auto
    show ?thesis unfolding createBackup_snoc ev
      by (rule step_ok_fields(4) [OF u both])
  qed
qed

lemma timestamp_props:
  "length (timestamp now) = length now
   \<and> (\<forall>i < length now. timestamp now ! i =
        (if now ! i = CHR '':'' \<or> now ! i = CHR ''.'' then CHR ''-'' else now ! i))
   \<and> CHR '':'' \<notin> set (timestamp now) \<and> CHR ''.'' \<notin> set (timestamp now)"
  by (auto simp: timestamp_def)

subsection \<open>The database identifier\<close>

text \<open>
  C5, as the code has it. For a connection string that parses as a URL with path \<open>p\<close>,
  \<^verbatim>\<open>extractDbName\<close> returns \<open>p\<close> without its first character when that is not empty, and
  the sentinel \<^verbatim>\<open>unknown-db\<close> when it is empty; in particular a path made of a separator
  and a non-empty name gives the name. For a string that does not parse it returns the
  sentinel. It returns in every case (it never throws).
\<close>

theorem extractDbName_result:
  "(new_URL pf dbUrl = Some url \<longrightarrow>
      extractDbName pf dbUrl =
        Inr (if drop 1 (pathname url) = [] then ''unknown-db'' else drop 1 (pathname url)))
   \<and> (new_URL pf dbUrl = Some url \<and> pathname url = c # name \<and> name \<noteq> [] \<longrightarrow>
      extractDbName pf dbUrl = Inr name)
   \<and> (new_URL pf dbUrl = None \<longrightarrow> extractDbName pf dbUrl = Inr ''unknown-db'')
   \<and> (\<exists>name. extractDbName pf dbUrl = Inr name)"
  by (auto simp: extractDbName_def Let_def split: option.splits)

theorem extractDbName_result_witness:
  "new_URL sample_platform ''postgres://user@host/shop'' = Some \<lparr>pathname = ''/shop''\<rparr>
   \<and> extractDbName sample_platform ''postgres://user@host/shop'' = Inr ''shop''
   \<and> new_URL sample_platform ''postgres://host/'' = Some \<lparr>pathname = ''/''\<rparr>
   \<and> extractDbName sample_platform ''postgres://host/'' = Inr ''unknown-db''
   \<and> new_URL sample_platform [] = None
   \<and> extractDbName sample_platform [] = Inr ''unknown-db''"
  using extractDbName_result [of sample_platform "''postgres://user@host/shop''"
      "\<lparr>pathname = ''/shop''\<rparr>" "CHR ''/''" "''shop''"]
    extractDbName_result [of sample_platform "''postgres://host/''" "\<lparr>pathname = ''/''\<rparr>"]
    extractDbName_result [of sample_platform "[]"]
  by (simp add: sample_platform_def)

text \<open>
  C5 as stated fails: \<^verbatim>\<open>postgres://host/\<close> parses, its path is the separator alone, the
  path without the separator is the empty string, and the function returns the sentinel.
\<close>

theorem extractDbName_strip_counterexample:
  "new_URL sample_platform ''postgres://host/'' = Some \<lparr>pathname = ''/''\<rparr>
   \<and> extractDbName sample_platform ''postgres://host/'' = Inr ''unknown-db''
   \<and> extractDbName sample_platform ''postgres://host/'' \<noteq> Inr (drop 1 ''/'')"
  by (simp add: sample_platform_def extractDbName_def)

text \<open>
  C9. For a connection string that parses as a URL whose path is empty or is the separator
  alone, \<^verbatim>\<open>extractDbName\<close> returns the sentinel \<^verbatim>\<open>unknown-db\<close>; and whatever the
  connection string, the identifier it returns is not the empty string.
\<close>

theorem extractDbName_never_empty:
  "(new_URL pf dbUrl = Some url \<and> (pathname url = [] \<or> pathname url = ''/'') \<longrightarrow>
      extractDbName pf dbUrl = Inr ''unknown-db'')
   \<and> extractDbName pf dbUrl \<noteq> Inr []"
  by (auto simp: extractDbName_def Let_def split: option.splits)

theorem extractDbName_never_empty_witness:
  "new_URL sample_platform ''postgres://host'' = Some \<lparr>pathname = []\<rparr>
   \<and> extractDbName sample_platform ''postgres://host'' = Inr ''unknown-db''
   \<and> new_URL sample_platform ''postgres://host/'' = Some \<lparr>pathname = ''/''\<rparr>
   \<and> extractDbName sample_platform ''postgres://host/'' = Inr ''unknown-db''"
  using extractDbName_never_empty [of sample_platform "''postgres://host''" "\<lparr>pathname = []\<rparr>"]
    extractDbName_never_empty [of sample_platform "''postgres://host/''" "\<lparr>pathname = ''/''\<rparr>"]
  by (simp add: sample_platform_def)

subsection \<open>Restore dispatch\<close>

text \<open>
  C3. \<^verbatim>\<open>restoreBackup(path)\<close> starts exactly one command, chosen by the suffix of the path
  alone: \<^verbatim>\<open>pg_restore --clean --if-exists\<close> when the path ends in \<^verbatim>\<open>.backup\<close>, and
  \<^verbatim>\<open>psql -f\<close> for every other path, among them \<^verbatim>\<open>foo.sql\<close>, \<^verbatim>\<open>foo.backupx\<close> and \<^verbatim>\<open>foo\<close>.
\<close>

theorem restoreBackup_dispatch:
  "((\<exists>stem. path = stem @ ''.backup'') \<longrightarrow>
      executed (fst (restoreBackup pf path)) = [pg_restore_command pf path])
   \<and> (\<not> (\<exists>stem. path = stem @ ''.backup'') \<longrightarrow>
      executed (fst (restoreBackup pf path)) = [psql_command pf path])
   \<and> executed (fst (restoreBackup pf ''foo.backup'')) = [pg_restore_command pf ''foo.backup'']
   \<and> executed (fst (restoreBackup pf ''foo.sql'')) = [psql_command pf ''foo.sql'']
   \<and> executed (fst (restoreBackup pf ''foo.backupx'')) = [psql_command pf ''foo.backupx'']
   \<and> executed (fst (restoreBackup pf ''foo'')) = [psql_command pf ''foo'']"
proof -
  have "endsWith ''foo.backup'' ''.backup''" "\<not> endsWith ''foo.sql'' ''.backup''"
    "\<not> endsWith ''foo.backupx'' ''.backup''" "\<not> endsWith ''foo'' ''.backup''"
    by (simp_all add: endsWith_def)
  then show ?thesis
    by (simp add: executed_restoreBackup endsWith_iff [symmetric])
qed

theorem restoreBackup_dispatch_witness:
  "''/var/backups/a.backup'' = ''/var/backups/a'' @ ''.backup''
   \<and> executed (fst (restoreBackup sample_platform ''/var/backups/a.backup'')) =
     [''pg_restore -d '' @ dquote @ ''postgres://user@host/shop'' @ dquote @
      '' --clean --if-exists /var/backups/a.backup'']
   \<and> \<not> (\<exists>stem. ''/var/backups/sql/a.sql'' = stem @ ''.backup'')
   \<and> executed (fst (restoreBackup sample_platform ''/var/backups/sql/a.sql'')) =
     [''psql '' @ dquote @ ''postgres://user@host/shop'' @ dquote @
      '' -f /var/backups/sql/a.sql'']"
proof -
  have a: "\<exists>stem. ''/var/backups/a.backup'' = stem @ ''.backup''"
    by (simp add: endsWith_iff [symmetric] endsWith_def)
  have b: "\<not> (\<exists>stem. ''/var/backups/sql/a.sql'' = stem @ ''.backup'')"
    by (simp add: endsWith_iff [symmetric] endsWith_def)
  show ?thesis
    using a b restoreBackup_dispatch [of "''/var/backups/a.backup''" sample_platform]
      restoreBackup_dispatch [of "''/var/backups/sql/a.sql''" sample_platform]
    by (simp add: pg_restore_command_def psql_command_def template_env_def sample_platform_def)
qed

subsection \<open>Creating a backup\<close>

text \<open>
  C1. Whatever the order in which the two dump processes end and whatever their results
  (each process ends at most once), if one of them reports failure then \<^verbatim>\<open>createBackup()\<close>
  rejects, with the failure of a dump as its cause, and so returns no success result; and
  before that it has logged exactly one error, whose message
  \<^verbatim>\<open>Backup failed for database '<dbName>':\<close> contains the database identifier.
\<close>

theorem createBackup_fails_when_a_dump_fails:
  assumes "distinct (map fst evs)" and "(d, ExitFail e) \<in> set evs"
  shows "\<exists>d' e'. (d', ExitFail e') \<in> set evs
    \<and> cb_result (createBackup pf this now evs) = Rejected e'
    \<and> (\<forall>paths. cb_result (createBackup pf this now evs) \<noteq> Fulfilled paths)
    \<and> cb_effects (createBackup pf this now evs) =
        cb_effects (createBackup_start pf this now) @
        [LogError (''Backup failed for database '' @ squote @ dbName this @ squote @ '':'') e']"
proof -
  from first_failure_split [OF assms(2)] obtain pre d' e' post
    where split: "evs = pre @ (d', ExitFail e') # post" and ok: "\<forall>x \<in> set pre. snd x = ExitOk"
    by blast
  have dist: "d' \<notin> fst ` set pre"
    using assms(1) unfolding split by auto
  have mem: "(d', ExitFail e') \<in> set evs" unfolding split by simp
  from createBackup_first_failure [OF ok dist, of pf this now e' post]
  have "cb_result (createBackup pf this now evs) = Rejected e'"
    "cb_effects (createBackup pf this now evs) =
        cb_effects (createBackup_start pf this now) @
        [LogError (''Backup failed for database '' @ squote @ dbName this @ squote @ '':'') e']"
    unfolding split by simp_all
  with mem show ?thesis by auto
qed

theorem createBackup_fails_when_a_dump_fails_witness:
  "distinct (map fst [(CustomDump, ExitOk), (SqlDump, ExitFail (Error ''connection refused''))])
   \<and> (SqlDump, ExitFail (Error ''connection refused''))
       \<in> set [(CustomDump, ExitOk), (SqlDump, ExitFail (Error ''connection refused''))]
   \<and> cb_result (createBackup sample_platform sample_backup sample_now
        [(CustomDump, ExitOk), (SqlDump, ExitFail (Error ''connection refused''))]) =
       Rejected (Error ''connection refused'')
   \<and> cb_effects (createBackup sample_platform sample_backup sample_now
        [(CustomDump, ExitOk), (SqlDump, ExitFail (Error ''connection refused''))]) =
       cb_effects (createBackup_start sample_platform sample_backup sample_now) @
       [LogError (''Backup failed for database '' @ squote @ ''shop'' @ squote @ '':'')
          (Error ''connection refused'')]"
  using createBackup_fails_when_a_dump_fails
    [of "[(CustomDump, ExitOk), (SqlDump, ExitFail (Error ''connection refused''))]"
        SqlDump "Error ''connection refused''" sample_platform sample_backup sample_now]
  by (auto simp: sample_backup_def)

text \<open>
  C2. With the clock at an instant whose ISO text is \<open>now\<close>, \<^verbatim>\<open>createBackup()\<close> starts
  exactly two dump commands, whatever happens next. The file each one writes is named by
  the same database identifier and the same timestamp, which is \<open>now\<close> with every colon and
  period replaced by a hyphen and nothing else changed; the \<^verbatim>\<open>.sql\<close> file is joined to the
  \<^verbatim>\<open>sql\<close> subdirectory and the \<^verbatim>\<open>.backup\<close> file to the root backup directory. When both
  processes succeed the two paths are returned, and no other value is ever returned.
\<close>

theorem createBackup_two_files:
  "executed (cb_effects (createBackup pf this now evs)) =
     [''pg_dump '' @ dquote @ template_env (env_DATABASE_URL pf) @ dquote @ '' -f '' @
        path_join pf (sqlDir this) (dbName this @ ''-backup-'' @ timestamp now @ ''.sql''),
      ''pg_dump -Fc '' @ dquote @ template_env (env_DATABASE_URL pf) @ dquote @ '' -f '' @
        path_join pf (backupDir this) (dbName this @ ''-backup-'' @ timestamp now @ ''.backup'')]
   \<and> length (timestamp now) = length now
   \<and> (\<forall>i < length now. timestamp now ! i =
        (if now ! i = CHR '':'' \<or> now ! i = CHR ''.'' then CHR ''-'' else now ! i))
   \<and> CHR '':'' \<notin> set (timestamp now) \<and> CHR ''.'' \<notin> set (timestamp now)
   \<and> ((\<forall>ev \<in> set evs. snd ev = ExitOk) \<and> SqlDump \<in> fst ` set evs \<and> CustomDump \<in> fst ` set evs \<longrightarrow>
        cb_result (createBackup pf this now evs) =
          Fulfilled
            \<lparr>sql = path_join pf (sqlDir this) (dbName this @ ''-backup-'' @ timestamp now @ ''.sql''),
             backup = path_join pf (backupDir this)
                        (dbName this @ ''-backup-'' @ timestamp now @ ''.backup'')\<rparr>)
   \<and> (\<forall>p. cb_result (createBackup pf this now evs) = Fulfilled p \<longrightarrow>
        p = \<lparr>sql = path_join pf (sqlDir this) (dbName this @ ''-backup-'' @ timestamp now @ ''.sql''),
             backup = path_join pf (backupDir this)
                        (dbName this @ ''-backup-'' @ timestamp now @ ''.backup'')\<rparr>)"
proof -
  have paths: "sqlPath pf this (timestamp now) =
      path_join pf (sqlDir this) (dbName this @ ''-backup-'' @ timestamp now @ ''.sql'')"
    "backupPath pf this (timestamp now) =
      path_join pf (backupDir this) (dbName this @ ''-backup-'' @ timestamp now @ ''.backup'')"
    by (simp_all add: sqlPath_def backupPath_def sqlFilename_def backupFilename_def)
  have 1: "executed (cb_effects (createBackup pf this now evs)) =
     [''pg_dump '' @ dquote @ template_env (env_DATABASE_URL pf) @ dquote @ '' -f '' @
        path_join pf (sqlDir this) (dbName this @ ''-backup-'' @ timestamp now @ ''.sql''),
      ''pg_dump -Fc '' @ dquote @ template_env (env_DATABASE_URL pf) @ dquote @ '' -f '' @
        path_join pf (backupDir this) (dbName this @ ''-backup-'' @ timestamp now @ ''.backup'')]"
    unfolding executed_createBackup paths pg_dump_sql_command_def pg_dump_custom_command_def ..
  have 2: "(\<forall>ev \<in> set evs. snd ev = ExitOk) \<and> SqlDump \<in> fst ` set evs \<and> CustomDump \<in> fst ` set evs \<longrightarrow>
        cb_result (createBackup pf this now evs) =
          Fulfilled
            \<lparr>sql = path_join pf (sqlDir this) (dbName this @ ''-backup-'' @ timestamp now @ ''.sql''),
             backup = path_join pf (backupDir this)
                        (dbName this @ ''-backup-'' @ timestamp now @ ''.backup'')\<rparr>"
    using createBackup_all_ok [of evs pf this now] unfolding paths by blast
  have 3: "\<forall>p. cb_result (createBackup pf this now evs) = Fulfilled p \<longrightarrow>
        p = \<lparr>sql = path_join pf (sqlDir this) (dbName this @ ''-backup-'' @ timestamp now @ ''.sql''),
             backup = path_join pf (backupDir this)
                        (dbName this @ ''-backup-'' @ timestamp now @ ''.backup'')\<rparr>"
    using createBackup_done_flags [of pf this now evs] unfolding paths by blast
  from 1 2 3 timestamp_props [of now] show ?thesis by blast
qed

theorem createBackup_two_files_witness:
  "map snd [(CustomDump, ExitOk), (SqlDump, ExitOk)] = [ExitOk, ExitOk]
   \<and> SqlDump \<in> fst ` set [(CustomDump, ExitOk), (SqlDump, ExitOk)]
   \<and> CustomDump \<in> fst ` set [(CustomDump, ExitOk), (SqlDump, ExitOk)]
   \<and> timestamp sample_now = ''2024-01-02T03-04-05-678Z''
   \<and> executed (cb_effects (createBackup sample_platform sample_backup sample_now
        [(CustomDump, ExitOk), (SqlDump, ExitOk)])) =
      [''pg_dump '' @ dquote @ ''postgres://user@host/shop'' @ dquote @
         '' -f /var/backups/sql/shop-backup-2024-01-02T03-04-05-678Z.sql'',
       ''pg_dump -Fc '' @ dquote @ ''postgres://user@host/shop'' @ dquote @
         '' -f /var/backups/shop-backup-2024-01-02T03-04-05-678Z.backup'']
   \<and> cb_result (createBackup sample_platform sample_backup sample_now
        [(CustomDump, ExitOk), (SqlDump, ExitOk)]) =
      Fulfilled \<lparr>sql = ''/var/backups/sql/shop-backup-2024-01-02T03-04-05-678Z.sql'',
                 backup = ''/var/backups/shop-backup-2024-01-02T03-04-05-678Z.backup''\<rparr>"
proof -
  let ?evs = "[(CustomDump, ExitOk), (SqlDump, ExitOk)]"
  have h: "(\<forall>ev \<in> set ?evs. snd ev = ExitOk) \<and> SqlDump \<in> fst ` set ?evs \<and> CustomDump \<in> fst ` set ?evs"
    by simp
  note t = createBackup_two_files [of sample_platform sample_backup sample_now ?evs]
  from t have e: "executed (cb_effects (createBackup sample_platform sample_backup sample_now ?evs)) =
     [''pg_dump '' @ dquote @ template_env (env_DATABASE_URL sample_platform) @ dquote @ '' -f '' @
        path_join sample_platform (sqlDir sample_backup)
          (dbName sample_backup @ ''-backup-'' @ timestamp sample_now @ ''.sql''),
      ''pg_dump -Fc '' @ dquote @ template_env (env_DATABASE_URL sample_platform) @ dquote @ '' -f '' @
        path_join sample_platform (backupDir sample_backup)
          (dbName sample_backup @ ''-backup-'' @ timestamp sample_now @ ''.backup'')]"
    by (rule conjunct1)
  from t h have r: "cb_result (createBackup sample_platform sample_backup sample_now ?evs) =
     Fulfilled
       \<lparr>sql = path_join sample_platform (sqlDir sample_backup)
                (dbName sample_backup @ ''-backup-'' @ timestamp sample_now @ ''.sql''),
        backup = path_join sample_platform (backupDir sample_backup)
                (dbName sample_backup @ ''-backup-'' @ timestamp sample_now @ ''.backup'')\<rparr>"
    by blast
  have e': "executed (cb_effects (createBackup sample_platform sample_backup sample_now ?evs)) =
      [''pg_dump '' @ dquote @ ''postgres://user@host/shop'' @ dquote @
         '' -f /var/backups/sql/shop-backup-2024-01-02T03-04-05-678Z.sql'',
       ''pg_dump -Fc '' @ dquote @ ''postgres://user@host/shop'' @ dquote @
         '' -f /var/backups/shop-backup-2024-01-02T03-04-05-678Z.backup'']"
    unfolding e
    by (simp add: sample_platform_fields sample_backup_fields timestamp_sample_now
        sample_join_def template_env_def)
  have r': "cb_result (createBackup sample_platform sample_backup sample_now ?evs) =
      Fulfilled \<lparr>sql = ''/var/backups/sql/shop-backup-2024-01-02T03-04-05-678Z.sql'',
                 backup = ''/var/backups/shop-backup-2024-01-02T03-04-05-678Z.backup''\<rparr>"
    unfolding r
    by (simp add: sample_platform_fields sample_backup_fields timestamp_sample_now sample_join_def)
  have m: "map snd ?evs = [ExitOk, ExitOk]" by simp
  from m h timestamp_sample_now e' r' show ?thesis by blast
qed

text \<open>
  C7, as the code has it. \<^verbatim>\<open>createBackup()\<close> starts both dump commands before it waits
  for either. It returns a success result only after both processes have ended
  successfully. While it is waiting, the first process to fail makes it fail at once,
  whether or not the other process has ended; and once it has returned or failed, what
  the other process does later changes nothing.
\<close>

theorem createBackup_settles:
  "executed (cb_effects (createBackup pf this now [])) =
     [pg_dump_sql_command pf (sqlPath pf this (timestamp now)),
      pg_dump_custom_command pf (backupPath pf this (timestamp now))]
   \<and> cb_result (createBackup pf this now []) = Unsettled
   \<and> (\<forall>p. cb_result (createBackup pf this now evs) = Fulfilled p \<longrightarrow>
        (SqlDump, ExitOk) \<in> set evs \<and> (CustomDump, ExitOk) \<in> set evs)
   \<and> (cb_result (createBackup pf this now evs) = Unsettled \<longrightarrow>
        cb_result (createBackup pf this now (evs @ [(d, ExitFail e)])) = Rejected e)
   \<and> (cb_result (createBackup pf this now evs) \<noteq> Unsettled \<longrightarrow>
        createBackup pf this now (evs @ later) = createBackup pf this now evs)"
proof -
  have 1: "cb_result (createBackup pf this now []) = Unsettled"
    by (simp add: createBackup_Nil createBackup_start_def Let_def)
  have 2: "\<forall>p. cb_result (createBackup pf this now evs) = Fulfilled p \<longrightarrow>
        (SqlDump, ExitOk) \<in> set evs \<and> (CustomDump, ExitOk) \<in> set evs"
    using createBackup_done_flags [of pf this now evs] by blast
  have 3: "cb_result (createBackup pf this now evs) = Unsettled \<longrightarrow>
        cb_result (createBackup pf this now (evs @ [(d, ExitFail e)])) = Rejected e"
    by (simp add: createBackup_snoc step_fail)
  have 4: "cb_result (createBackup pf this now evs) \<noteq> Unsettled \<longrightarrow>
        createBackup pf this now (evs @ later) = createBackup pf this now evs"
    using foldl_step_settled [of "createBackup pf this now evs" pf this now later]
    by (simp add: createBackup_def)
  from executed_createBackup [of pf this now "[]"] 1 2 3 4 show ?thesis by blast
qed

theorem createBackup_settles_witness:
  "cb_result (createBackup sample_platform sample_backup sample_now [(CustomDump, ExitOk)]) = Unsettled
   \<and> cb_result (createBackup sample_platform sample_backup sample_now
        ([(CustomDump, ExitOk)] @ [(SqlDump, ExitFail (Error ''connection refused''))])) =
      Rejected (Error ''connection refused'')
   \<and> cb_result (createBackup sample_platform sample_backup sample_now
        [(SqlDump, ExitFail (Error ''connection refused''))]) \<noteq> Unsettled
   \<and> createBackup sample_platform sample_backup sample_now
        ([(SqlDump, ExitFail (Error ''connection refused''))] @ [(CustomDump, ExitOk)]) =
      createBackup sample_platform sample_backup sample_now
        [(SqlDump, ExitFail (Error ''connection refused''))]"
proof -
  have u: "cb_result (createBackup sample_platform sample_backup sample_now [(CustomDump, ExitOk)]) = Unsettled"
    by (simp add: createBackup_def createBackup_start_def createBackup_step_def Let_def)
  have r: "cb_result (createBackup sample_platform sample_backup sample_now
        [(SqlDump, ExitFail (Error ''connection refused''))]) \<noteq> Unsettled"
    by (simp add: createBackup_def createBackup_start_def createBackup_step_def Let_def)
  note a = createBackup_settles [where pf = sample_platform and this = sample_backup
        and now = sample_now and evs = "[(CustomDump, ExitOk)]" and d = SqlDump
        and e = "Error ''connection refused''" and later = "[]"]
  note b = createBackup_settles [where pf = sample_platform and this = sample_backup
        and now = sample_now and evs = "[(SqlDump, ExitFail (Error ''connection refused''))]"
        and d = SqlDump and e = "Error ''connection refused''" and later = "[(CustomDump, ExitOk)]"]
  from a u have 1: "cb_result (createBackup sample_platform sample_backup sample_now
        ([(CustomDump, ExitOk)] @ [(SqlDump, ExitFail (Error ''connection refused''))])) =
      Rejected (Error ''connection refused'')"
    by blast
  from b r have 2: "createBackup sample_platform sample_backup sample_now
        ([(SqlDump, ExitFail (Error ''connection refused''))] @ [(CustomDump, ExitOk)]) =
      createBackup sample_platform sample_backup sample_now
        [(SqlDump, ExitFail (Error ''connection refused''))]"
    by blast
  from u 1 r 2 show ?thesis by blast
qed

text \<open>
  C7 as stated fails: when the plain-text dump fails first, \<^verbatim>\<open>createBackup()\<close> has
  already failed although the custom-format dump has not ended.
\<close>

theorem createBackup_join_counterexample:
  "cb_result (createBackup sample_platform sample_backup sample_now
      [(SqlDump, ExitFail (Error ''connection refused''))]) = Rejected (Error ''connection refused'')
   \<and> CustomDump \<notin> fst ` set [(SqlDump, ExitFail (Error ''connection refused''))]"
  by (simp add: createBackup_def createBackup_start_def createBackup_step_def Let_def)

subsection \<open>Helper lemmas on numbers, letters and the restore session\<close>

lemma is_digit10_iff: "is_digit 10 c \<longleftrightarrow> 48 \<le> (of_char c :: nat) \<and> (of_char c :: nat) \<le> 57"
  by (auto simp: is_digit_def digit_value_def Let_def split: option.splits if_splits)

lemma digit_value10: "is_digit 10 c \<Longrightarrow> digit_value 10 c = Some ((of_char c :: nat) - 48)"
  by (auto simp: is_digit10_iff digit_value_def Let_def)

lemma of_char_digit_char: "d < 10 \<Longrightarrow> (of_char (digit_char d) :: nat) = 48 + d"
  by (simp add: digit_char_def)

lemma is_digit_digit_char: "d < 10 \<Longrightarrow> is_digit 10 (digit_char d)"
  by (simp add: is_digit10_iff of_char_digit_char)

lemma digit_value_digit_char: "d < 10 \<Longrightarrow> digit_value 10 (digit_char d) = Some d"
  by (simp add: digit_value10 is_digit_digit_char of_char_digit_char)

lemma is_digit_not_special:
  assumes "is_digit 10 c"
  shows "\<not> is_white_space c" "c \<noteq> CHR ''+''" "c \<noteq> CHR ''-''" "c \<noteq> CHR ''x''" "c \<noteq> CHR ''X''"
    "c \<noteq> CHR ''q''" "c \<noteq> CHR ''Q''"
  using assms by (auto simp: is_digit10_iff is_white_space_def)

lemma digits_value_snoc:
  "digits_value R (Z @ [c]) = digits_value R Z * R + (case digit_value R c of Some d \<Rightarrow> d | None \<Rightarrow> 0)"
  by (simp add: digits_value_def)

lemma dec_digits: "\<forall>c \<in> set (dec n). is_digit 10 c"
proof (induction n rule: dec.induct)
  case (1 n)
  show ?case
  proof (cases "n < 10")
    case True
    then show ?thesis by (simp add: dec.simps [of n] is_digit_digit_char)
  next
    case False
    with 1 show ?thesis by (simp add: dec.simps [of n] is_digit_digit_char)
  qed
qed

lemma dec_nonempty: "dec n \<noteq> []"
  by (simp add: dec.simps [of n])

lemma digits_value_dec: "digits_value 10 (dec n) = n"
proof (induction n rule: dec.induct)
  case (1 n)
  show ?case
  proof (cases "n < 10")
    case True
    then show ?thesis
      by (simp add: dec.simps [of n] digits_value_def digit_value_digit_char)
  next
    case False
    with 1 have "digits_value 10 (dec (n div 10)) = n div 10" by simp
    then show ?thesis
      using False by (simp add: dec.simps [of n] digits_value_snoc digit_value_digit_char)
  qed
qed

lemma hd_dec_nonzero: "1 \<le> n \<Longrightarrow> hd (dec n) \<noteq> CHR ''0''"
proof (induction n rule: dec.induct)
  case (1 n)
  show ?case
  proof (cases "n < 10")
    case True
    have "(of_char (digit_char n) :: nat) \<noteq> of_char (CHR ''0'')"
      using True "1.prems" by (simp add: of_char_digit_char)
    then have "digit_char n \<noteq> CHR ''0''" by metis
    then show ?thesis using True by (simp add: dec.simps [of n])
  next
    case False
    then have "1 \<le> n div 10" by simp
    with 1 False have "hd (dec (n div 10)) \<noteq> CHR ''0''" by simp
    then show ?thesis using False by (simp add: dec.simps [of n] dec_nonempty)
  qed
qed

lemma parseInt_digits:
  assumes ds: "ds \<noteq> []" "\<forall>c \<in> set ds. is_digit 10 c"
    and tail: "tail = [] \<or> \<not> is_digit 10 (hd tail)"
    and nohex: "hd ds \<noteq> CHR ''0'' \<or> tail = []"
  shows "parseInt (ds @ tail) = Some (int (digits_value 10 ds))"
proof -
  obtain d ds' where dd: "ds = d # ds'" using ds(1) by (cases ds) auto
  have d: "is_digit 10 d" using ds(2) dd by simp
  note sp = is_digit_not_special [OF d]
  have dw: "dropWhile is_white_space (ds @ tail) = ds @ tail"
    using sp(1) dd by simp
  have nh: "take 2 (ds @ tail) \<noteq> ''0x''" "take 2 (ds @ tail) \<noteq> ''0X''"
  proof -
    show "take 2 (ds @ tail) \<noteq> ''0x''"
    proof (cases ds')
      case Nil
      then show ?thesis using nohex dd by (cases tail) auto
    next
      case (Cons e es)
      then have "is_digit 10 e" using ds(2) dd by simp
      from is_digit_not_special(4) [OF this] show ?thesis using dd Cons by auto
    qed
    show "take 2 (ds @ tail) \<noteq> ''0X''"
    proof (cases ds')
      case Nil
      then show ?thesis using nohex dd by (cases tail) auto
    next
      case (Cons e es)
      then have "is_digit 10 e" using ds(2) dd by simp
      from is_digit_not_special(5) [OF this] show ?thesis using dd Cons by auto
    qed
  qed
  have tw: "takeWhile (is_digit 10) (ds @ tail) = ds"
  proof (cases tail)
    case Nil
    then show ?thesis using ds(2) by simp
  next
    case (Cons t ts)
    then have "\<not> is_digit 10 t" using tail by simp
    then show ?thesis using ds(2) Cons by (simp add: takeWhile_append2)
  qed
  have hd1: "hd (ds @ tail) \<noteq> CHR ''-''" "hd (ds @ tail) \<noteq> CHR ''+''"
    using sp dd by simp_all
  show ?thesis
    unfolding parseInt_def dw Let_def
    using hd1 nh tw ds(1) by simp
qed

lemma parseInt_dec: "parseInt (dec n) = Some (int n)"
  using parseInt_digits [of "dec n" "[]"] dec_digits [of n] dec_nonempty [of n]
  by (simp add: digits_value_dec)

lemma parseInt_dec_tail:
  "1 \<le> n \<Longrightarrow> \<not> is_digit 10 c \<Longrightarrow> parseInt (dec n @ c # tail) = Some (int n)"
  using parseInt_digits [of "dec n" "c # tail"] dec_digits [of n] dec_nonempty [of n] hd_dec_nonzero [of n]
  by (simp add: digits_value_dec)

lemma parseInt_0: "parseInt ''0'' = Some 0"
  by (simp add: parseInt_def is_white_space_def is_digit_def digit_value_def digits_value_def Let_def)

lemma parseInt_2abc: "parseInt ''2abc'' = Some 2"
  by code_simp

lemma lower_char_eq_q: "lower_char c = CHR ''q'' \<longleftrightarrow> c = CHR ''q'' \<or> c = CHR ''Q''"
proof
  assume h: "lower_char c = CHR ''q''"
  show "c = CHR ''q'' \<or> c = CHR ''Q''"
  proof (cases "(65 \<le> (of_char c :: nat) \<and> (of_char c :: nat) \<le> 90) \<or> (192 \<le> (of_char c :: nat) \<and> (of_char c :: nat) \<le> 222 \<and> (of_char c :: nat) \<noteq> 215)")
    case False
    with h show ?thesis by (simp add: lower_char_def Let_def)
  next
    case True
    with h have "char_of ((of_char c :: nat) + 32) = CHR ''q''" by (simp add: lower_char_def Let_def)
    then have "(of_char (char_of ((of_char c :: nat) + 32)) :: nat) = of_char (CHR ''q'')" by simp
    then have "((of_char c :: nat) + 32) mod 256 = 113" by simp
    moreover have "(of_char c :: nat) + 32 < 256" using True by auto
    ultimately have "(of_char c :: nat) = of_char (CHR ''Q'')" by simp
    then have "c = CHR ''Q''" by (metis char_of_char)
    then show ?thesis by simp
  qed
next
  assume "c = CHR ''q'' \<or> c = CHR ''Q''"
  moreover have "lower_char (CHR ''q'') = CHR ''q''" "lower_char (CHR ''Q'') = CHR ''q''"
    by code_simp+
  ultimately show "lower_char c = CHR ''q''" by auto
qed


lemma toLowerCase_eq_q: "toLowerCase s = ''q'' \<longleftrightarrow> s = ''q'' \<or> s = ''Q''"
  by (cases s) (auto simp: toLowerCase_def lower_char_eq_q)


lemma lower_char_eq_y: "lower_char c = CHR ''y'' \<longleftrightarrow> c = CHR ''y'' \<or> c = CHR ''Y''"
proof
  assume h: "lower_char c = CHR ''y''"
  show "c = CHR ''y'' \<or> c = CHR ''Y''"
  proof (cases "(65 \<le> (of_char c :: nat) \<and> (of_char c :: nat) \<le> 90) \<or> (192 \<le> (of_char c :: nat) \<and> (of_char c :: nat) \<le> 222 \<and> (of_char c :: nat) \<noteq> 215)")
    case False
    with h show ?thesis by (simp add: lower_char_def Let_def)
  next
    case True
    with h have "char_of ((of_char c :: nat) + 32) = CHR ''y''" by (simp add: lower_char_def Let_def)
    then have "(of_char (char_of ((of_char c :: nat) + 32)) :: nat) = of_char (CHR ''y'')" by simp
    then have "((of_char c :: nat) + 32) mod 256 = 121" by simp
    moreover have "(of_char c :: nat) + 32 < 256" using True by auto
    ultimately have "(of_char c :: nat) = of_char (CHR ''Y'')" by simp
    then have "c = CHR ''Y''" by (metis char_of_char)
    then show ?thesis by simp
  qed
next
  assume "c = CHR ''y'' \<or> c = CHR ''Y''"
  moreover have "lower_char (CHR ''y'') = CHR ''y''" "lower_char (CHR ''Y'') = CHR ''y''"
    by code_simp+
  ultimately show "lower_char c = CHR ''y''" by auto
qed


lemma toLowerCase_eq_y: "toLowerCase s = ''y'' \<longleftrightarrow> s = ''y'' \<or> s = ''Y''"
  by (cases s) (auto simp: toLowerCase_def lower_char_eq_y)


lemma parseInt_not_q: "parseInt answer = Some k \<Longrightarrow> toLowerCase answer \<noteq> ''q''"
proof
  assume p: "parseInt answer = Some k" and "toLowerCase answer = ''q''"
  then have "answer = ''q'' \<or> answer = ''Q''" by (simp add: toLowerCase_eq_q)
  moreover have "parseInt ''q'' = None" "parseInt ''Q'' = None" by code_simp+
  ultimately show False using p by auto
qed

lemma valid_selection:
  assumes "parseInt answer = Some k" "1 \<le> k" "k \<le> int (length backups)"
  shows "isValidSelection (minus_one (parseInt answer)) (length backups)"
    and "index_at backups (minus_one (parseInt answer)) = Some (backups ! nat (k - 1))"
  using assms by (simp_all add: isValidSelection_def minus_one_def index_at_def)

lemma invalid_selection:
  assumes "parseInt answer = None \<or> (\<exists>k. parseInt answer = Some k \<and> (k < 1 \<or> int n < k))"
  shows "\<not> isValidSelection (minus_one (parseInt answer)) n"
  using assms by (auto simp: isValidSelection_def minus_one_def)

lemma restore_try_select:
  assumes "listBackups pf this = Inr backups" "backups \<noteq> []"
    and "displayBackups pf backups = (out, Inr u)"
  shows "restore_try pf this (answer # rest) =
     (if toLowerCase answer = ''q''
      then (out @ [Prompt (select_prompt (length backups)), ConsoleLog ''Restore cancelled''], Fulfilled ())
      else if \<not> isValidSelection (minus_one (parseInt answer)) (length backups)
      then (out @ [Prompt (select_prompt (length backups)), ConsoleLog ''Invalid selection''], Fulfilled ())
      else (case index_at backups (minus_one (parseInt answer)) of
              None \<Rightarrow> (out @ [Prompt (select_prompt (length backups))], Rejected (Error ''TypeError''))
            | Some selectedBackup \<Rightarrow>
                restore_confirm pf (out @ [Prompt (select_prompt (length backups))]) selectedBackup rest))"
  using assms by (simp add: restore_try_def Let_def)

lemma restore_try_empty:
  "listBackups pf this = Inr [] \<Longrightarrow>
   restore_try pf this answers = ([ConsoleLog ''No backup files available''], Fulfilled ())"
  by (simp add: restore_try_def)

lemma restore_action_of_try:
  "restore_try pf this answers = (es, Fulfilled u) \<Longrightarrow>
     restore_action pf this answers = (RlOpen # es @ [RlClose], Fulfilled ())"
  "restore_try pf this answers = (es, Rejected e) \<Longrightarrow>
     restore_action pf this answers = (RlOpen # es @ [LogError ''Restore failed:'' e, RlClose], Fulfilled ())"
  "restore_try pf this answers = (es, Unsettled) \<Longrightarrow>
     restore_action pf this answers = (RlOpen # es, Unsettled)"
  by (simp_all add: restore_action_def)

lemma restore_confirm_no:
  "toLowerCase confirmation \<noteq> ''y'' \<Longrightarrow>
   restore_confirm pf sofar selectedBackup (confirmation # rest) =
     (sofar @ [Prompt (confirm_prompt pf selectedBackup), ConsoleLog ''Restore cancelled''], Fulfilled ())"
  by (simp add: restore_confirm_def Let_def)

lemma executed_restore_confirm_yes:
  "toLowerCase confirmation = ''y'' \<Longrightarrow>
   executed (fst (restore_confirm pf sofar selectedBackup (confirmation # rest))) =
     executed sofar @
     [if endsWith selectedBackup ''.backup'' then pg_restore_command pf selectedBackup
      else psql_command pf selectedBackup]"
  by (simp add: restore_confirm_def restoreBackup_def Let_def executed_append
      split: option.splits exec_result.splits)

lemma displayBackups_forEach_quiet:
  "displayBackups_forEach pf i bs = (out, r) \<Longrightarrow>
   executed out = [] \<and> prompts out = [] \<and> RlClose \<notin> set out"
proof (induction bs arbitrary: i out r)
  case Nil
  then show ?case by simp
next
  case (Cons b bs)
  show ?case
  proof (cases "statSync pf b")
    case (Inl e)
    with Cons.prems show ?thesis by simp
  next
    case (Inr st)
    obtain out' r' where rec: "displayBackups_forEach pf (i + 1) bs = (out', r')"
      by (cases "displayBackups_forEach pf (i + 1) bs")
    from Cons.IH [OF rec] have q: "executed out' = [] \<and> prompts out' = [] \<and> RlClose \<notin> set out'" .
    from Cons.prems Inr rec have "out =
        [ConsoleLog (newline @ dec (i + 1) @ '') '' @ path_basename pf b),
         ConsoleLog (''   Size: '' @ mb_toFixed2 pf (stat_size st) @ '' MB''),
         ConsoleLog (''   Date: '' @ toLocaleString pf (stat_mtime st))] @ out'"
      by (simp add: Let_def)
    with q show ?thesis by simp
  qed
qed

lemma displayBackups_quiet:
  "displayBackups pf bs = (out, r) \<Longrightarrow>
   executed out = [] \<and> prompts out = [] \<and> RlClose \<notin> set out"
proof -
  assume a: "displayBackups pf bs = (out, r)"
  obtain out' r' where rec: "displayBackups_forEach pf 0 bs = (out', r')"
    by (cases "displayBackups_forEach pf 0 bs")
  from a rec have "out = [ConsoleLog (newline @ ''Available backups (custom format):''),
            ConsoleLog ''=================================''] @ out'"
    by (simp add: displayBackups_def)
  with displayBackups_forEach_quiet [OF rec] show ?thesis by simp
qed

lemma prompts_append: "prompts (xs @ ys) = prompts xs @ prompts ys"
  by (induction xs rule: prompts.induct) simp_all

lemma restoreBackup_no_close: "RlClose \<notin> set (fst (restoreBackup pf p))"
  by (simp add: restoreBackup_def Let_def split: option.splits exec_result.splits)

lemma restore_confirm_no_close:
  "RlClose \<notin> set sofar \<Longrightarrow> RlClose \<notin> set (fst (restore_confirm pf sofar sel answers))"
proof (cases answers)
  case Nil
  assume "RlClose \<notin> set sofar"
  then show ?thesis using Nil by (simp add: restore_confirm_def Let_def)
next
  case (Cons c cs)
  assume a: "RlClose \<notin> set sofar"
  obtain es r where rb: "restoreBackup pf sel = (es, r)" by (cases "restoreBackup pf sel")
  have "RlClose \<notin> set es" using restoreBackup_no_close [of pf sel] rb by simp
  then show ?thesis using a Cons rb
    by (cases r) (simp_all add: restore_confirm_def Let_def)
qed

lemma restore_try_no_close: "RlClose \<notin> set (fst (restore_try pf this answers))"
proof (cases "listBackups pf this")
  case (Inl e)
  then show ?thesis by (simp add: restore_try_def)
next
  case (Inr backups)
  show ?thesis
  proof (cases "backups = []")
    case True
    with Inr show ?thesis by (simp add: restore_try_def)
  next
    case False
    obtain out r where d: "displayBackups pf backups = (out, r)" by (cases "displayBackups pf backups")
    from displayBackups_quiet [OF d] have q: "RlClose \<notin> set out" by simp
    show ?thesis
    proof (cases r)
      case (Inl e)
      with Inr False d q show ?thesis by (simp add: restore_try_def)
    next
      case (Inr u)
      note d' = d [unfolded Inr]
      show ?thesis
      proof (cases answers)
        case Nil
        with \<open>listBackups pf this = Inr backups\<close> False d' q show ?thesis
          by (simp add: restore_try_def Let_def)
      next
        case (Cons answer rest)
        have "RlClose \<notin> set (out @ [Prompt (select_prompt (length backups))])" using q by simp
        from restore_confirm_no_close [OF this]
        show ?thesis
          unfolding Cons restore_try_select [OF \<open>listBackups pf this = Inr backups\<close> False d']
          using q by (simp split: option.splits)
      qed
    qed
  qed
qed

lemma sample_listBackups:
  "listBackups sample_platform sample_backup = Inr [''/var/backups/a.backup'', ''/var/backups/b.backup'']"
  by code_simp

lemma sample_listBackups_empty:
  "listBackups sample_platform (sample_backup\<lparr>backupDir := ''/var/empty''\<rparr>) = Inr []"
  by code_simp

lemma sample_displayBackups:
  "displayBackups sample_platform [''/var/backups/a.backup'', ''/var/backups/b.backup''] =
     (fst (displayBackups sample_platform [''/var/backups/a.backup'', ''/var/backups/b.backup'']), Inr ())"
proof -
  have "snd (displayBackups sample_platform [''/var/backups/a.backup'', ''/var/backups/b.backup'']) = Inr ()"
    by code_simp
  then show ?thesis by (metis prod.collapse)
qed

lemma createDirectories_unfold:
  "createDirectories api root sub fs =
     (if \<not> existsSync api fs root
      then (case mkdirSync_recursive api fs root of
              Inl e \<Rightarrow> Inl e
            | Inr fs' \<Rightarrow>
                if \<not> existsSync api fs' sub
                then (case mkdirSync_recursive api fs' sub of Inl e \<Rightarrow> Inl e | Inr fs'' \<Rightarrow> Inr fs'')
                else Inr fs')
      else if \<not> existsSync api fs sub
      then (case mkdirSync_recursive api fs sub of Inl e \<Rightarrow> Inl e | Inr fs'' \<Rightarrow> Inr fs'')
      else Inr fs)"
  by (simp add: createDirectories_def split: sum.splits)

subsection \<open>The interactive restore session\<close>

text \<open>
  C8. The action never rejects. Whenever it ends, which is whenever its \<^verbatim>\<open>try\<close> block
  returns or throws (a restore that succeeded, a cancellation at either prompt, an invalid
  selection, the empty inventory, a failure caught by \<^verbatim>\<open>catch\<close>), the input channel
  opened first is closed last, and exactly once.
\<close>

theorem restore_action_closes:
  "(\<forall>e. snd (restore_action pf this answers) \<noteq> Rejected e)
   \<and> (snd (restore_action pf this answers) = Fulfilled () \<longleftrightarrow>
        snd (restore_try pf this answers) \<noteq> Unsettled)
   \<and> (snd (restore_action pf this answers) = Fulfilled () \<longrightarrow>
        hd (fst (restore_action pf this answers)) = RlOpen
        \<and> last (fst (restore_action pf this answers)) = RlClose
        \<and> count_list (fst (restore_action pf this answers)) RlClose = 1)"
proof -
  obtain es r where t: "restore_try pf this answers = (es, r)"
    by (cases "restore_try pf this answers")
  have nc: "RlClose \<notin> set es" using restore_try_no_close [of pf this answers] t by simp
  then have c0: "count_list es RlClose = 0" by (simp add: count_list_0_iff)
  show ?thesis
  proof (cases r)
    case (Fulfilled u)
    from restore_action_of_try(1) [OF t [unfolded Fulfilled]] t Fulfilled c0
    show ?thesis by simp
  next
    case (Rejected e)
    from restore_action_of_try(2) [OF t [unfolded Rejected]] t Rejected c0
    show ?thesis by simp
  next
    case Unsettled
    from restore_action_of_try(3) [OF t [unfolded Unsettled]] t Unsettled
    show ?thesis by simp
  qed
qed

theorem restore_action_closes_witness:
  "snd (restore_action sample_platform sample_backup [''1'', ''y'']) = Fulfilled ()
   \<and> last (fst (restore_action sample_platform sample_backup [''1'', ''y''])) = RlClose
   \<and> snd (restore_action sample_platform sample_backup [''q'']) = Fulfilled ()
   \<and> last (fst (restore_action sample_platform sample_backup [''q''])) = RlClose
   \<and> snd (restore_action sample_platform sample_backup [''1'', ''n'']) = Fulfilled ()
   \<and> last (fst (restore_action sample_platform sample_backup [''1'', ''n''])) = RlClose
   \<and> snd (restore_action sample_platform (sample_backup\<lparr>backupDir := ''/var/empty''\<rparr>) []) = Fulfilled ()
   \<and> last (fst (restore_action sample_platform (sample_backup\<lparr>backupDir := ''/var/empty''\<rparr>) [])) = RlClose
   \<and> snd (restore_action sample_platform (sample_backup\<lparr>backupDir := ''/missing''\<rparr>) []) = Fulfilled ()
   \<and> last (fst (restore_action sample_platform (sample_backup\<lparr>backupDir := ''/missing''\<rparr>) [])) = RlClose"
proof -
  have h: "snd (restore_action sample_platform sample_backup [''1'', ''y'']) = Fulfilled ()"
    "snd (restore_action sample_platform sample_backup [''q'']) = Fulfilled ()"
    "snd (restore_action sample_platform sample_backup [''1'', ''n'']) = Fulfilled ()"
    "snd (restore_action sample_platform (sample_backup\<lparr>backupDir := ''/var/empty''\<rparr>) []) = Fulfilled ()"
    "snd (restore_action sample_platform (sample_backup\<lparr>backupDir := ''/missing''\<rparr>) []) = Fulfilled ()"
    by code_simp+
  show ?thesis
    using h
      restore_action_closes [of sample_platform sample_backup "[''1'', ''y'']"]
      restore_action_closes [of sample_platform sample_backup "[''q'']"]
      restore_action_closes [of sample_platform sample_backup "[''1'', ''n'']"]
      restore_action_closes [of sample_platform "sample_backup\<lparr>backupDir := ''/var/empty''\<rparr>" "[]"]
      restore_action_closes [of sample_platform "sample_backup\<lparr>backupDir := ''/missing''\<rparr>" "[]"]
    by blast
qed

text \<open>
  C10. Once the backups are listed and displayed, an answer for which \<^verbatim>\<open>Number.parseInt\<close>
  gives an integer \<open>k\<close> with \<open>1 \<le> k \<le> N\<close> selects the \<open>k\<close>-th backup, whatever follows
  the digits: the session goes on to the confirmation prompt naming that backup, and after
  an affirmative answer restores exactly that path. \<^verbatim>\<open>2abc\<close> parses to 2, and so does the
  decimal text of any \<open>n \<ge> 1\<close> followed by a character that is not a digit.
\<close>

theorem restore_accepts_parsed_prefix:
  assumes "listBackups pf this = Inr backups"
    and "displayBackups pf backups = (out, Inr ())"
    and "parseInt answer = Some k" and "1 \<le> k" and "k \<le> int (length backups)"
  shows "restore_try pf this (answer # rest) =
      restore_confirm pf (out @ [Prompt (select_prompt (length backups))]) (backups ! nat (k - 1)) rest
    \<and> prompts (fst (restore_action pf this [answer])) =
        [select_prompt (length backups), confirm_prompt pf (backups ! nat (k - 1))]
    \<and> (toLowerCase confirmation = ''y'' \<longrightarrow>
        executed (fst (restore_action pf this (answer # confirmation # rest))) =
          [if endsWith (backups ! nat (k - 1)) ''.backup''
           then pg_restore_command pf (backups ! nat (k - 1))
           else psql_command pf (backups ! nat (k - 1))])
    \<and> parseInt ''2abc'' = Some 2
    \<and> (1 \<le> n \<and> \<not> is_digit 10 c \<longrightarrow> parseInt (dec n @ c # tail) = Some (int n))"
proof -
  from assms(4,5) have ne: "backups \<noteq> []" by auto
  note q = displayBackups_quiet [OF assms(2)]
  let ?asked = "out @ [Prompt (select_prompt (length backups))]"
  let ?sel = "backups ! nat (k - 1)"
  have sel: "\<And>rest. restore_try pf this (answer # rest) = restore_confirm pf ?asked ?sel rest"
    unfolding restore_try_select [OF assms(1) ne assms(2)]
    using parseInt_not_q [OF assms(3)] valid_selection [OF assms(3,4,5)]
    by simp
  have pr: "prompts (fst (restore_action pf this [answer])) = [select_prompt (length backups), confirm_prompt pf ?sel]"
  proof -
    have "restore_try pf this [answer] = (?asked @ [Prompt (confirm_prompt pf ?sel)], Unsettled)"
      unfolding sel by (simp add: restore_confirm_def Let_def)
    from restore_action_of_try(3) [OF this] show ?thesis
      using q by (simp add: prompts_append)
  qed
  have ex: "toLowerCase confirmation = ''y'' \<longrightarrow>
        executed (fst (restore_action pf this (answer # confirmation # rest))) =
          [if endsWith ?sel ''.backup'' then pg_restore_command pf ?sel else psql_command pf ?sel]"
  proof
    assume y: "toLowerCase confirmation = ''y''"
    obtain es r where t: "restore_try pf this (answer # confirmation # rest) = (es, r)"
      by (cases "restore_try pf this (answer # confirmation # rest)")
    have "executed es = executed ?asked @ [if endsWith ?sel ''.backup'' then pg_restore_command pf ?sel else psql_command pf ?sel]"
      using executed_restore_confirm_yes [OF y, of pf ?asked ?sel rest] t sel by simp
    then have e: "executed es = [if endsWith ?sel ''.backup'' then pg_restore_command pf ?sel else psql_command pf ?sel]"
      using q by (simp add: executed_append)
    show "executed (fst (restore_action pf this (answer # confirmation # rest))) =
          [if endsWith ?sel ''.backup'' then pg_restore_command pf ?sel else psql_command pf ?sel]"
      using e t by (cases r) (simp_all add: restore_action_def executed_append)
  qed
  have tl: "1 \<le> n \<and> \<not> is_digit 10 c \<longrightarrow> parseInt (dec n @ c # tail) = Some (int n)"
    using parseInt_dec_tail by blast
  from sel [of rest] pr ex parseInt_2abc tl show ?thesis by blast
qed

theorem restore_accepts_parsed_prefix_witness:
  "listBackups sample_platform sample_backup = Inr [''/var/backups/a.backup'', ''/var/backups/b.backup'']
   \<and> snd (displayBackups sample_platform [''/var/backups/a.backup'', ''/var/backups/b.backup'']) = Inr ()
   \<and> parseInt ''2abc'' = Some 2 \<and> (1::int) \<le> 2
   \<and> (2::int) \<le> int (length [''/var/backups/a.backup'', ''/var/backups/b.backup''])
   \<and> toLowerCase ''y'' = ''y''
   \<and> prompts (fst (restore_action sample_platform sample_backup [''2abc''])) =
       [select_prompt 2, confirm_prompt sample_platform ''/var/backups/b.backup'']
   \<and> executed (fst (restore_action sample_platform sample_backup [''2abc'', ''y''])) =
       [pg_restore_command sample_platform ''/var/backups/b.backup'']"
proof -
  let ?bs = "[''/var/backups/a.backup'', ''/var/backups/b.backup'']"
  have p: "parseInt ''2abc'' = Some 2" by code_simp
  have r: "(1::int) \<le> 2" "(2::int) \<le> int (length ?bs)" by simp_all
  have y: "toLowerCase ''y'' = ''y''" by code_simp
  have e: "endsWith ''/var/backups/b.backup'' ''.backup''" by code_simp
  have d: "snd (displayBackups sample_platform ?bs) = Inr ()" by code_simp
  note t = restore_accepts_parsed_prefix [OF sample_listBackups sample_displayBackups p r,
      where confirmation = "''y''" and rest = "[]"]
  from t have a1: "prompts (fst (restore_action sample_platform sample_backup [''2abc''])) =
       [select_prompt (length ?bs), confirm_prompt sample_platform (?bs ! nat (2 - 1))]"
    by blast
  from t y have a2: "executed (fst (restore_action sample_platform sample_backup [''2abc'', ''y''])) =
       [if endsWith (?bs ! nat (2 - 1)) ''.backup''
        then pg_restore_command sample_platform (?bs ! nat (2 - 1))
        else psql_command sample_platform (?bs ! nat (2 - 1))]"
    by blast
  have n: "?bs ! nat (2 - 1) = ''/var/backups/b.backup''" by simp
  from a1 have b1: "prompts (fst (restore_action sample_platform sample_backup [''2abc''])) =
       [select_prompt 2, confirm_prompt sample_platform ''/var/backups/b.backup'']"
    unfolding n by (simp add: numeral_2_eq_2)
  from a2 e have b2: "executed (fst (restore_action sample_platform sample_backup [''2abc'', ''y''])) =
       [pg_restore_command sample_platform ''/var/backups/b.backup'']"
    unfolding n by simp
  from sample_listBackups d p r y b1 b2 show ?thesis by blast
qed

text \<open>
  C4, as the code has it. Over the \<open>N\<close> paths that \<^verbatim>\<open>listBackups\<close> returns:
  if \<open>N = 0\<close> the session prints one informational line and ends, asking nothing.
  Otherwise, once the list is displayed (which asks nothing and restores nothing):
  an answer that \<^verbatim>\<open>Number.parseInt\<close> turns into \<^verbatim>\<open>NaN\<close> or into an integer outside
  \<open>1..N\<close>, among them \<^verbatim>\<open>0\<close> and the decimal text of \<open>N + 1\<close>, ends the session after the
  first prompt with \<^verbatim>\<open>Restore cancelled\<close> (for the quit token) or \<^verbatim>\<open>Invalid selection\<close>,
  with no restore; an answer parsed to \<open>k\<close> in \<open>1..N\<close> followed by a confirmation other than
  \<^verbatim>\<open>y\<close> or \<^verbatim>\<open>Y\<close> ends it with \<^verbatim>\<open>Restore cancelled\<close> and no restore; followed by \<^verbatim>\<open>y\<close> or
  \<^verbatim>\<open>Y\<close> it starts exactly one restore command, on the \<open>k\<close>-th path.
\<close>

theorem restore_session:
  assumes "listBackups pf this = Inr backups"
  shows "(backups = [] \<longrightarrow>
        restore_action pf this answers =
          ([RlOpen, ConsoleLog ''No backup files available'', RlClose], Fulfilled ()))
    \<and> (backups \<noteq> [] \<and> displayBackups pf backups = (out, Inr ()) \<longrightarrow>
        executed out = [] \<and> prompts out = []
        \<and> (parseInt answer = None
             \<or> (\<exists>k. parseInt answer = Some k \<and> (k < 1 \<or> int (length backups) < k)) \<longrightarrow>
            restore_action pf this (answer # rest) =
              (RlOpen # out @
                 [Prompt (select_prompt (length backups)),
                  ConsoleLog (if toLowerCase answer = ''q'' then ''Restore cancelled''
                              else ''Invalid selection''),
                  RlClose],
               Fulfilled ()))
        \<and> restore_action pf this (''0'' # rest) =
            (RlOpen # out @
               [Prompt (select_prompt (length backups)), ConsoleLog ''Invalid selection'', RlClose],
             Fulfilled ())
        \<and> restore_action pf this (dec (length backups + 1) # rest) =
            (RlOpen # out @
               [Prompt (select_prompt (length backups)), ConsoleLog ''Invalid selection'', RlClose],
             Fulfilled ())
        \<and> (parseInt answer = Some k \<and> 1 \<le> k \<and> k \<le> int (length backups)
             \<and> toLowerCase confirmation \<noteq> ''y'' \<longrightarrow>
            restore_action pf this (answer # confirmation # rest) =
              (RlOpen # out @
                 [Prompt (select_prompt (length backups)),
                  Prompt (confirm_prompt pf (backups ! nat (k - 1))),
                  ConsoleLog ''Restore cancelled'', RlClose],
               Fulfilled ()))
        \<and> (parseInt answer = Some k \<and> 1 \<le> k \<and> k \<le> int (length backups)
             \<and> toLowerCase confirmation = ''y'' \<longrightarrow>
            executed (fst (restore_action pf this (answer # confirmation # rest))) =
              [if endsWith (backups ! nat (k - 1)) ''.backup''
               then pg_restore_command pf (backups ! nat (k - 1))
               else psql_command pf (backups ! nat (k - 1))]))
    \<and> (toLowerCase confirmation = ''y'' \<longleftrightarrow> confirmation = ''y'' \<or> confirmation = ''Y'')"
proof -
  have A: "backups = [] \<longrightarrow>
        restore_action pf this answers =
          ([RlOpen, ConsoleLog ''No backup files available'', RlClose], Fulfilled ())"
  proof
    assume "backups = []"
    with assms have "listBackups pf this = Inr []" by simp
    from restore_action_of_try(1) [OF restore_try_empty [OF this]]
    show "restore_action pf this answers =
          ([RlOpen, ConsoleLog ''No backup files available'', RlClose], Fulfilled ())"
      by simp
  qed
  have B: "backups \<noteq> [] \<and> displayBackups pf backups = (out, Inr ()) \<longrightarrow>
        executed out = [] \<and> prompts out = []
        \<and> (parseInt answer = None
             \<or> (\<exists>k. parseInt answer = Some k \<and> (k < 1 \<or> int (length backups) < k)) \<longrightarrow>
            restore_action pf this (answer # rest) =
              (RlOpen # out @
                 [Prompt (select_prompt (length backups)),
                  ConsoleLog (if toLowerCase answer = ''q'' then ''Restore cancelled''
                              else ''Invalid selection''),
                  RlClose],
               Fulfilled ()))
        \<and> restore_action pf this (''0'' # rest) =
            (RlOpen # out @
               [Prompt (select_prompt (length backups)), ConsoleLog ''Invalid selection'', RlClose],
             Fulfilled ())
        \<and> restore_action pf this (dec (length backups + 1) # rest) =
            (RlOpen # out @
               [Prompt (select_prompt (length backups)), ConsoleLog ''Invalid selection'', RlClose],
             Fulfilled ())
        \<and> (parseInt answer = Some k \<and> 1 \<le> k \<and> k \<le> int (length backups)
             \<and> toLowerCase confirmation \<noteq> ''y'' \<longrightarrow>
            restore_action pf this (answer # confirmation # rest) =
              (RlOpen # out @
                 [Prompt (select_prompt (length backups)),
                  Prompt (confirm_prompt pf (backups ! nat (k - 1))),
                  ConsoleLog ''Restore cancelled'', RlClose],
               Fulfilled ()))
        \<and> (parseInt answer = Some k \<and> 1 \<le> k \<and> k \<le> int (length backups)
             \<and> toLowerCase confirmation = ''y'' \<longrightarrow>
            executed (fst (restore_action pf this (answer # confirmation # rest))) =
              [if endsWith (backups ! nat (k - 1)) ''.backup''
               then pg_restore_command pf (backups ! nat (k - 1))
               else psql_command pf (backups ! nat (k - 1))])"
  proof
    assume h: "backups \<noteq> [] \<and> displayBackups pf backups = (out, Inr ())"
    then have ne: "backups \<noteq> []" and d: "displayBackups pf backups = (out, Inr ())" by simp_all
    note q = displayBackups_quiet [OF d]
    note sel = restore_try_select [OF assms ne d]
    have inv: "restore_action pf this (a # rest) =
              (RlOpen # out @
                 [Prompt (select_prompt (length backups)),
                  ConsoleLog (if toLowerCase a = ''q'' then ''Restore cancelled''
                              else ''Invalid selection''),
                  RlClose],
               Fulfilled ())"
      if "parseInt a = None \<or> (\<exists>k. parseInt a = Some k \<and> (k < 1 \<or> int (length backups) < k))"
      for a
    proof -
      from invalid_selection [OF that]
      have "restore_try pf this (a # rest) =
          (out @ [Prompt (select_prompt (length backups)),
                  ConsoleLog (if toLowerCase a = ''q'' then ''Restore cancelled''
                              else ''Invalid selection'')], Fulfilled ())"
        unfolding sel by simp
      from restore_action_of_try(1) [OF this] show ?thesis by simp
    qed
    have zero: "restore_action pf this (''0'' # rest) =
            (RlOpen # out @
               [Prompt (select_prompt (length backups)), ConsoleLog ''Invalid selection'', RlClose],
             Fulfilled ())"
      using inv [of "''0''"] parseInt_0 parseInt_not_q [OF parseInt_0] by simp
    have over: "restore_action pf this (dec (length backups + 1) # rest) =
            (RlOpen # out @
               [Prompt (select_prompt (length backups)), ConsoleLog ''Invalid selection'', RlClose],
             Fulfilled ())"
      using inv [of "dec (length backups + 1)"] parseInt_dec [of "length backups + 1"]
        parseInt_not_q [OF parseInt_dec [of "length backups + 1"]] by simp
    have no: "restore_action pf this (answer # confirmation # rest) =
              (RlOpen # out @
                 [Prompt (select_prompt (length backups)),
                  Prompt (confirm_prompt pf (backups ! nat (k - 1))),
                  ConsoleLog ''Restore cancelled'', RlClose],
               Fulfilled ())"
      if "parseInt answer = Some k \<and> 1 \<le> k \<and> k \<le> int (length backups) \<and> toLowerCase confirmation \<noteq> ''y''"
    proof -
      from that have p: "parseInt answer = Some k" and r: "1 \<le> k" "k \<le> int (length backups)"
        and n: "toLowerCase confirmation \<noteq> ''y''" by simp_all
      have "restore_try pf this (answer # confirmation # rest) =
          (out @ [Prompt (select_prompt (length backups)),
                  Prompt (confirm_prompt pf (backups ! nat (k - 1))),
                  ConsoleLog ''Restore cancelled''], Fulfilled ())"
        unfolding sel
        using parseInt_not_q [OF p] valid_selection [OF p r] restore_confirm_no [OF n]
        by simp
      from restore_action_of_try(1) [OF this] show ?thesis by simp
    qed
    have yes: "executed (fst (restore_action pf this (answer # confirmation # rest))) =
              [if endsWith (backups ! nat (k - 1)) ''.backup''
               then pg_restore_command pf (backups ! nat (k - 1))
               else psql_command pf (backups ! nat (k - 1))]"
      if "parseInt answer = Some k \<and> 1 \<le> k \<and> k \<le> int (length backups) \<and> toLowerCase confirmation = ''y''"
    proof -
      from that have p: "parseInt answer = Some k" and r: "1 \<le> k" "k \<le> int (length backups)"
        and y: "toLowerCase confirmation = ''y''" by simp_all
      let ?asked = "out @ [Prompt (select_prompt (length backups))]"
      let ?sel = "backups ! nat (k - 1)"
      have s: "restore_try pf this (answer # confirmation # rest) =
          restore_confirm pf ?asked ?sel (confirmation # rest)"
        unfolding sel using parseInt_not_q [OF p] valid_selection [OF p r] by simp
      obtain es r' where t: "restore_try pf this (answer # confirmation # rest) = (es, r')"
        by (cases "restore_try pf this (answer # confirmation # rest)")
      have "executed es = executed ?asked @
          [if endsWith ?sel ''.backup'' then pg_restore_command pf ?sel else psql_command pf ?sel]"
        using executed_restore_confirm_yes [OF y, of pf ?asked ?sel rest] t s by simp
      then have e: "executed es =
          [if endsWith ?sel ''.backup'' then pg_restore_command pf ?sel else psql_command pf ?sel]"
        using q by (simp add: executed_append)
      show ?thesis
        using e t by (cases r') (simp_all add: restore_action_def executed_append)
    qed
    from q inv [of answer] zero over no yes
    show "executed out = [] \<and> prompts out = []
        \<and> (parseInt answer = None
             \<or> (\<exists>k. parseInt answer = Some k \<and> (k < 1 \<or> int (length backups) < k)) \<longrightarrow>
            restore_action pf this (answer # rest) =
              (RlOpen # out @
                 [Prompt (select_prompt (length backups)),
                  ConsoleLog (if toLowerCase answer = ''q'' then ''Restore cancelled''
                              else ''Invalid selection''),
                  RlClose],
               Fulfilled ()))
        \<and> restore_action pf this (''0'' # rest) =
            (RlOpen # out @
               [Prompt (select_prompt (length backups)), ConsoleLog ''Invalid selection'', RlClose],
             Fulfilled ())
        \<and> restore_action pf this (dec (length backups + 1) # rest) =
            (RlOpen # out @
               [Prompt (select_prompt (length backups)), ConsoleLog ''Invalid selection'', RlClose],
             Fulfilled ())
        \<and> (parseInt answer = Some k \<and> 1 \<le> k \<and> k \<le> int (length backups)
             \<and> toLowerCase confirmation \<noteq> ''y'' \<longrightarrow>
            restore_action pf this (answer # confirmation # rest) =
              (RlOpen # out @
                 [Prompt (select_prompt (length backups)),
                  Prompt (confirm_prompt pf (backups ! nat (k - 1))),
                  ConsoleLog ''Restore cancelled'', RlClose],
               Fulfilled ()))
        \<and> (parseInt answer = Some k \<and> 1 \<le> k \<and> k \<le> int (length backups)
             \<and> toLowerCase confirmation = ''y'' \<longrightarrow>
            executed (fst (restore_action pf this (answer # confirmation # rest))) =
              [if endsWith (backups ! nat (k - 1)) ''.backup''
               then pg_restore_command pf (backups ! nat (k - 1))
               else psql_command pf (backups ! nat (k - 1))])"
      by blast
  qed
  from A B toLowerCase_eq_y [of confirmation] show ?thesis by blast
qed

theorem restore_session_witness:
  "listBackups sample_platform (sample_backup\<lparr>backupDir := ''/var/empty''\<rparr>) = Inr []
   \<and> restore_action sample_platform (sample_backup\<lparr>backupDir := ''/var/empty''\<rparr>) [] =
       ([RlOpen, ConsoleLog ''No backup files available'', RlClose], Fulfilled ())
   \<and> listBackups sample_platform sample_backup = Inr [''/var/backups/a.backup'', ''/var/backups/b.backup'']
   \<and> snd (displayBackups sample_platform [''/var/backups/a.backup'', ''/var/backups/b.backup'']) = Inr ()
   \<and> parseInt ''abc'' = None
   \<and> restore_action sample_platform sample_backup [''abc''] =
       (RlOpen # fst (displayBackups sample_platform [''/var/backups/a.backup'', ''/var/backups/b.backup'']) @
          [Prompt (select_prompt 2), ConsoleLog ''Invalid selection'', RlClose],
        Fulfilled ())
   \<and> parseInt ''1'' = Some 1 \<and> toLowerCase ''n'' \<noteq> ''y''
   \<and> restore_action sample_platform sample_backup [''1'', ''n''] =
       (RlOpen # fst (displayBackups sample_platform [''/var/backups/a.backup'', ''/var/backups/b.backup'']) @
          [Prompt (select_prompt 2), Prompt (confirm_prompt sample_platform ''/var/backups/a.backup''),
           ConsoleLog ''Restore cancelled'', RlClose],
        Fulfilled ())
   \<and> toLowerCase ''Y'' = ''y''
   \<and> executed (fst (restore_action sample_platform sample_backup [''1'', ''Y''])) =
       [pg_restore_command sample_platform ''/var/backups/a.backup'']"
proof -
  let ?bs = "[''/var/backups/a.backup'', ''/var/backups/b.backup'']"
  let ?out = "fst (displayBackups sample_platform ?bs)"
  have d: "snd (displayBackups sample_platform ?bs) = Inr ()" by code_simp
  have ne: "?bs \<noteq> []" by simp
  have pa: "parseInt ''abc'' = None" by code_simp
  have qa: "toLowerCase ''abc'' \<noteq> ''q''" by code_simp
  have p1: "parseInt ''1'' = Some 1" by code_simp
  have r1: "(1::int) \<le> 1" "(1::int) \<le> int (length ?bs)" by simp_all
  have n: "toLowerCase ''n'' \<noteq> ''y''" by code_simp
  have y: "toLowerCase ''Y'' = ''y''" by code_simp
  have e: "endsWith ''/var/backups/a.backup'' ''.backup''" by code_simp
  have len: "length ?bs = 2" by simp
  have sel: "?bs ! nat (1 - 1) = ''/var/backups/a.backup''" by simp
  note t0 = restore_session [OF sample_listBackups_empty, where answers = "[]"]
  from t0 have c0: "restore_action sample_platform (sample_backup\<lparr>backupDir := ''/var/empty''\<rparr>) [] =
       ([RlOpen, ConsoleLog ''No backup files available'', RlClose], Fulfilled ())"
    by blast
  note ta = restore_session [OF sample_listBackups, where out = ?out and answer = "''abc''" and rest = "[]"]
  from ta ne sample_displayBackups pa have "restore_action sample_platform sample_backup [''abc''] =
       (RlOpen # ?out @
          [Prompt (select_prompt (length ?bs)),
           ConsoleLog (if toLowerCase ''abc'' = ''q'' then ''Restore cancelled'' else ''Invalid selection''),
           RlClose],
        Fulfilled ())"
    by blast
  then have ca: "restore_action sample_platform sample_backup [''abc''] =
       (RlOpen # ?out @ [Prompt (select_prompt 2), ConsoleLog ''Invalid selection'', RlClose], Fulfilled ())"
    unfolding len using qa by simp
  note tn = restore_session [OF sample_listBackups, where out = ?out and answer = "''1''" and k = 1
      and confirmation = "''n''" and rest = "[]"]
  from tn ne sample_displayBackups p1 r1 n have "restore_action sample_platform sample_backup [''1'', ''n''] =
       (RlOpen # ?out @
          [Prompt (select_prompt (length ?bs)), Prompt (confirm_prompt sample_platform (?bs ! nat (1 - 1))),
           ConsoleLog ''Restore cancelled'', RlClose],
        Fulfilled ())"
    by blast
  then have cn: "restore_action sample_platform sample_backup [''1'', ''n''] =
       (RlOpen # ?out @
          [Prompt (select_prompt 2), Prompt (confirm_prompt sample_platform ''/var/backups/a.backup''),
           ConsoleLog ''Restore cancelled'', RlClose],
        Fulfilled ())"
    unfolding len sel .
  note ty = restore_session [OF sample_listBackups, where out = ?out and answer = "''1''" and k = 1
      and confirmation = "''Y''" and rest = "[]"]
  from ty ne sample_displayBackups p1 r1 y have "executed (fst (restore_action sample_platform sample_backup [''1'', ''Y''])) =
       [if endsWith (?bs ! nat (1 - 1)) ''.backup''
        then pg_restore_command sample_platform (?bs ! nat (1 - 1))
        else psql_command sample_platform (?bs ! nat (1 - 1))]"
    by blast
  then have cy: "executed (fst (restore_action sample_platform sample_backup [''1'', ''Y''])) =
       [pg_restore_command sample_platform ''/var/backups/a.backup'']"
    unfolding sel using e by simp
  from sample_listBackups_empty c0 sample_listBackups d pa ca p1 n cn y cy show ?thesis by blast
qed

text \<open>
  C4 as stated fails: \<^verbatim>\<open>2abc\<close> is not a numeric token, yet with two backups listed the
  answers \<^verbatim>\<open>2abc\<close> and \<^verbatim>\<open>y\<close> restore the second backup.
\<close>

theorem restore_non_numeric_counterexample:
  "listBackups sample_platform sample_backup = Inr [''/var/backups/a.backup'', ''/var/backups/b.backup'']
   \<and> \<not> list_all (is_digit 10) ''2abc''
   \<and> executed (fst (restore_action sample_platform sample_backup [''2abc'', ''y''])) =
       [pg_restore_command sample_platform ''/var/backups/b.backup'']"
proof -
  have "\<not> list_all (is_digit 10) ''2abc''" by code_simp
  moreover have "executed (fst (restore_action sample_platform sample_backup [''2abc'', ''y''])) =
       [pg_restore_command sample_platform ''/var/backups/b.backup'']"
    by code_simp
  ultimately show ?thesis using sample_listBackups by blast
qed

subsection \<open>Creating the directories\<close>

text \<open>
  C6. On a file system where a \<^verbatim>\<open>mkdirSync\<close> that returns has created its directory and
  removed nothing, and for every root path: after a call of \<^verbatim>\<open>createDirectories\<close> that
  completes, the root and its \<^verbatim>\<open>sql\<close> subdirectory both exist, and a second call completes
  without error and leaves the file system as it is; it creates nothing, since it
  completes in the same way whatever \<^verbatim>\<open>mkdirSync\<close> would do.
\<close>

theorem createDirectories_idempotent:
  assumes law: "\<forall>fs dir fs'. mkdirSync_recursive api fs dir = Inr fs' \<longrightarrow>
      existsSync api fs' dir \<and> (\<forall>p. existsSync api fs p \<longrightarrow> existsSync api fs' p)"
    and first: "createDirectories api root (path_join pf root ''sql'') fs = Inr fs1"
  shows "existsSync api fs1 root \<and> existsSync api fs1 (path_join pf root ''sql'')
    \<and> createDirectories api root (path_join pf root ''sql'') fs1 = Inr fs1
    \<and> createDirectories (api\<lparr>mkdirSync_recursive := m\<rparr>) root (path_join pf root ''sql'') fs1 = Inr fs1"
proof -
  let ?sub = "path_join pf root ''sql''"
  have ex: "existsSync api fs1 root \<and> existsSync api fs1 ?sub"
    using first law unfolding createDirectories_unfold
    by (auto split: if_splits sum.splits)
  then show ?thesis
    by (simp add: createDirectories_unfold)
qed

theorem createDirectories_idempotent_witness:
  "createDirectories sample_fs ''/var/backups'' (path_join sample_platform ''/var/backups'' ''sql'') [] =
     Inr [''/var/backups/sql'', ''/var/backups'']
   \<and> existsSync sample_fs [''/var/backups/sql'', ''/var/backups''] ''/var/backups''
   \<and> existsSync sample_fs [''/var/backups/sql'', ''/var/backups''] ''/var/backups/sql''
   \<and> createDirectories sample_fs ''/var/backups'' ''/var/backups/sql''
        [''/var/backups/sql'', ''/var/backups''] = Inr [''/var/backups/sql'', ''/var/backups'']
   \<and> createDirectories readonly_fs ''/var/backups'' ''/var/backups/sql''
        [''/var/backups/sql'', ''/var/backups''] = Inr [''/var/backups/sql'', ''/var/backups'']"
proof -
  have law: "\<forall>fs dir fs'. mkdirSync_recursive sample_fs fs dir = Inr fs' \<longrightarrow>
      existsSync sample_fs fs' dir \<and> (\<forall>p. existsSync sample_fs fs p \<longrightarrow> existsSync sample_fs fs' p)"
    by (auto simp: sample_fs_def)
  have j: "path_join sample_platform ''/var/backups'' ''sql'' = ''/var/backups/sql''"
    by (simp add: sample_platform_fields sample_join_def)
  have first: "createDirectories sample_fs ''/var/backups'' (path_join sample_platform ''/var/backups'' ''sql'') [] =
     Inr [''/var/backups/sql'', ''/var/backups'']"
    unfolding j by (simp add: createDirectories_unfold sample_fs_def)
  have ro: "sample_fs\<lparr>mkdirSync_recursive := mkdirSync_recursive readonly_fs\<rparr> = readonly_fs"
    by (simp add: sample_fs_def readonly_fs_def)
  from createDirectories_idempotent [OF law first, where m = "mkdirSync_recursive readonly_fs"] first
  show ?thesis unfolding j ro by simp
qed

end
